theory Spec2Isabelle
  imports Main "HOL-Library.AList" "HOL-Library.Sublist"
begin

section \<open>The cache service of Eiga (services/cacheService.ts)\<close>

text \<open>
  The module caches the results of asynchronous fetch functions in React Native's
  AsyncStorage, one JSON envelope \<^verbatim>\<open>{ data, timestamp, expiry }\<close> per composite key, and
  keeps the promises of the fetches under way in the module-level object
  \<^verbatim>\<open>pendingRequests\<close>. The spec calls \<^verbatim>\<open>loadFromCache\<close> get, \<^verbatim>\<open>saveToCache\<close> set,
  \<^verbatim>\<open>clearCache\<close> invalidate, \<^verbatim>\<open>clearUserCache\<close> invalidateScope and \<^verbatim>\<open>withCache\<close>
  getOrFetch.
\<close>

subsection \<open>Values\<close>

text \<open>
  A payload is a JSON value, or \<^verbatim>\<open>undefined\<close>. Numbers are integers: the timestamps and
  expiry times of the module are millisecond counts.
\<close>

datatype json =
    JNull
  | JBool bool
  | JNum int
  | JStr string
  | JArr "json list"
  | JObj "(string \<times> json) list"

datatype jsval = Undefined | Val json

abbreviation null :: jsval where
  "null \<equiv> Val JNull"

text \<open>What \<^verbatim>\<open>if (v)\<close> tests: \<^verbatim>\<open>undefined\<close>, \<^verbatim>\<open>null\<close>, \<^verbatim>\<open>false\<close>, \<^verbatim>\<open>0\<close> and \<^verbatim>\<open>""\<close> are falsy.\<close>

fun truthy :: "jsval \<Rightarrow> bool" where
  "truthy Undefined = False"
| "truthy (Val JNull) = False"
| "truthy (Val (JBool b)) = b"
| "truthy (Val (JNum n)) = (n \<noteq> 0)"
| "truthy (Val (JStr s)) = (s \<noteq> [])"
| "truthy (Val (JArr xs)) = True"
| "truthy (Val (JObj fs)) = True"

text \<open>
  The operands of \<^verbatim>\<open>now - timestamp < expiry\<close> are converted to numbers. A value that
  converts to no number gives \<^verbatim>\<open>NaN\<close>, with which every comparison is false.
\<close>

datatype jsnum = NaN | Num int

fun js_minus :: "jsnum \<Rightarrow> jsnum \<Rightarrow> jsnum" where
  "js_minus (Num a) (Num b) = Num (a - b)"
| "js_minus a b = NaN"

fun js_less :: "jsnum \<Rightarrow> jsnum \<Rightarrow> bool" where
  "js_less (Num a) (Num b) = (a < b)"
| "js_less a b = False"

datatype js_error = StorageError | SyntaxError | TypeError | FetchError string

subsection \<open>The persistent store\<close>

text \<open>
  AsyncStorage holds strings. The module writes only \<^verbatim>\<open>JSON.stringify\<close> of an envelope and
  reads only through \<^verbatim>\<open>JSON.parse\<close> and the destructuring
  \<^verbatim>\<open>const { data, timestamp, expiry = DEFAULT_CACHE_EXPIRY } = JSON.parse(s)\<close>, so a stored
  string is represented by what these make of it: the empty string, a string that
  \<^verbatim>\<open>JSON.parse\<close> rejects, the text \<^verbatim>\<open>null\<close> (whose destructuring throws), or a value with
  the three properties read from it. \<open>data\<close> is \<open>Undefined\<close> when the property is missing,
  \<open>timestamp\<close> is the property as a number (\<open>NaN\<close> when missing), and \<open>expiry\<close> is \<open>None\<close>
  when the property is missing, so that the default applies.
\<close>

record envelope =
  data :: jsval
  timestamp :: jsnum
  expiry :: "jsnum option"

datatype stored = EmptyString | Unparseable | ParsedNull | Parsed envelope

definition JSON_stringify :: "envelope \<Rightarrow> stored" where
  "JSON_stringify cacheData = Parsed cacheData"

fun JSON_parse :: "stored \<Rightarrow> js_error + envelope" where
  "JSON_parse EmptyString = Inl SyntaxError"
| "JSON_parse Unparseable = Inl SyntaxError"
| "JSON_parse ParsedNull = Inl TypeError"
| "JSON_parse (Parsed e) = Inr e"

text \<open>
  A promise returned by a fetch function: its identity and what it settles to. A fetch
  function is modelled by what its promise settles to.
\<close>

datatype settled = Resolved jsval | Rejected js_error

record promise =
  ident :: nat
  outcome :: settled

datatype log_line = Log string | Error string js_error

text \<open>
  The state the module works on: the content of AsyncStorage, the object
  \<^verbatim>\<open>pendingRequests\<close>, the number of calls of fetch functions made so far, and the console.
\<close>

record world =
  storage :: "(string \<times> stored) list"
  pendingRequests :: "(string \<times> promise) list"
  fetchCalls :: nat
  console :: "log_line list"

text \<open>
  Every operation of AsyncStorage may fail (its promise rejects). Which ones do is a
  parameter; a failed operation leaves the store as it was.
\<close>

record faults =
  getItem_fails :: "string \<Rightarrow> bool"
  setItem_fails :: "string \<Rightarrow> bool"
  removeItem_fails :: "string \<Rightarrow> bool"
  getAllKeys_fails :: bool
  multiRemove_fails :: bool

definition no_faults :: faults where
  "no_faults = \<lparr>getItem_fails = (\<lambda>k. False), setItem_fails = (\<lambda>k. False),
     removeItem_fails = (\<lambda>k. False), getAllKeys_fails = False, multiRemove_fails = False\<rparr>"

definition AsyncStorage_getItem :: "faults \<Rightarrow> string \<Rightarrow> world \<Rightarrow> js_error + stored option" where
  "AsyncStorage_getItem fl k w =
     (if getItem_fails fl k then Inl StorageError else Inr (map_of (storage w) k))"

definition AsyncStorage_setItem :: "faults \<Rightarrow> string \<Rightarrow> stored \<Rightarrow> world \<Rightarrow> js_error + world" where
  "AsyncStorage_setItem fl k v w =
     (if setItem_fails fl k then Inl StorageError
      else Inr (w\<lparr>storage := AList.update k v (storage w)\<rparr>))"

definition AsyncStorage_removeItem :: "faults \<Rightarrow> string \<Rightarrow> world \<Rightarrow> js_error + world" where
  "AsyncStorage_removeItem fl k w =
     (if removeItem_fails fl k then Inl StorageError
      else Inr (w\<lparr>storage := AList.delete k (storage w)\<rparr>))"

definition AsyncStorage_getAllKeys :: "faults \<Rightarrow> world \<Rightarrow> js_error + string list" where
  "AsyncStorage_getAllKeys fl w =
     (if getAllKeys_fails fl then Inl StorageError else Inr (map fst (storage w)))"

definition AsyncStorage_multiRemove :: "faults \<Rightarrow> string list \<Rightarrow> world \<Rightarrow> js_error + world" where
  "AsyncStorage_multiRemove fl ks w =
     (if multiRemove_fails fl then Inl StorageError
      else Inr (w\<lparr>storage := filter (\<lambda>(k, v). k \<notin> set ks) (storage w)\<rparr>))"

definition console_log :: "string \<Rightarrow> world \<Rightarrow> world" where
  "console_log msg w = w\<lparr>console := console w @ [Log msg]\<rparr>"

definition console_error :: "string \<Rightarrow> js_error \<Rightarrow> world \<Rightarrow> world" where
  "console_error msg err w = w\<lparr>console := console w @ [Error msg err]\<rparr>"

subsection \<open>Constants and keys\<close>

definition DEFAULT_CACHE_EXPIRY :: int where
  "DEFAULT_CACHE_EXPIRY = 1000 * 60 * 15"

definition LONG_CACHE_EXPIRY :: int where
  "LONG_CACHE_EXPIRY = 1000 * 60 * 60"

definition SHORT_CACHE_EXPIRY :: int where
  "SHORT_CACHE_EXPIRY = 1000 * 60 * 5"

text \<open>
  \<^verbatim>\<open>userId ? `${key}_${userId}` : key\<close>. The parameter is optional, and the empty string is
  falsy: it gives the bare key as a missing one does.
\<close>

definition cacheKey :: "string \<Rightarrow> string option \<Rightarrow> string" where
  "cacheKey key userId =
     (case userId of
        None \<Rightarrow> key
      | Some u \<Rightarrow> if u = [] then key else key @ ''_'' @ u)"

text \<open>\<^verbatim>\<open>s.includes(sub)\<close>: \<open>sub\<close> occurs somewhere in \<open>s\<close>.\<close>

fun str_includes :: "string \<Rightarrow> string \<Rightarrow> bool" where
  "str_includes [] sub = (sub = [])"
| "str_includes (c # s) sub = (prefix sub (c # s) \<or> str_includes s sub)"

text \<open>A parameter with a default value: \<^verbatim>\<open>expiry: number = DEFAULT_CACHE_EXPIRY\<close>.\<close>

definition expiry_or_default :: "int option \<Rightarrow> int" where
  "expiry_or_default e = (case e of None \<Rightarrow> DEFAULT_CACHE_EXPIRY | Some n \<Rightarrow> n)"

subsection \<open>loadFromCache\<close>

text \<open>
  The body of the \<^verbatim>\<open>try\<close> block: \<open>Inl\<close> is an exception thrown in it, \<open>Inr (Some v, w)\<close>
  is \<^verbatim>\<open>return v\<close>, and \<open>Inr (None, w)\<close> is reaching the end of the block. \<open>now\<close> is the
  reading of \<^verbatim>\<open>Date.now()\<close>.
\<close>

definition loadFromCache_try ::
  "faults \<Rightarrow> int \<Rightarrow> string \<Rightarrow> string option \<Rightarrow> world \<Rightarrow> js_error + (jsval option \<times> world)" where
  "loadFromCache_try fl now key userId w =
     (case AsyncStorage_getItem fl (cacheKey key userId) w of
        Inl err \<Rightarrow> Inl err
      | Inr None \<Rightarrow> Inr (None, w)
      | Inr (Some cachedDataString) \<Rightarrow>
          if cachedDataString = EmptyString then Inr (None, w)
          else
            (case JSON_parse cachedDataString of
               Inl err \<Rightarrow> Inl err
             | Inr e \<Rightarrow>
                 let ttl = (case expiry e of None \<Rightarrow> Num DEFAULT_CACHE_EXPIRY | Some x \<Rightarrow> x)
                 in if js_less (js_minus (Num now) (timestamp e)) ttl
                    then Inr (Some (data e),
                              console_log (''[CACHE] Using cached '' @ key @ '' data'') w)
                    else Inr (None, console_log (''[CACHE] '' @ key @ '' cache expired'') w)))"

definition loadFromCache ::
  "faults \<Rightarrow> int \<Rightarrow> string \<Rightarrow> string option \<Rightarrow> world \<Rightarrow> jsval \<times> world" where
  "loadFromCache fl now key userId w =
     (case loadFromCache_try fl now key userId w of
        Inl err \<Rightarrow>
          (null, console_error (''[CACHE] Error loading '' @ key @ '' from cache:'') err w)
      | Inr (Some v, w') \<Rightarrow> (v, w')
      | Inr (None, w') \<Rightarrow> (null, w'))"

subsection \<open>saveToCache\<close>

definition saveToCache_try ::
  "faults \<Rightarrow> int \<Rightarrow> string \<Rightarrow> jsval \<Rightarrow> string option \<Rightarrow> int option \<Rightarrow> world \<Rightarrow> js_error + world" where
  "saveToCache_try fl now key d userId exp w =
     (let cacheData = \<lparr>data = d, timestamp = Num now,
                       expiry = Some (Num (expiry_or_default exp))\<rparr>
      in case AsyncStorage_setItem fl (cacheKey key userId) (JSON_stringify cacheData) w of
           Inl err \<Rightarrow> Inl err
         | Inr w' \<Rightarrow> Inr (console_log (''[CACHE] '' @ key @ '' data cached successfully'') w'))"

definition saveToCache ::
  "faults \<Rightarrow> int \<Rightarrow> string \<Rightarrow> jsval \<Rightarrow> string option \<Rightarrow> int option \<Rightarrow> world \<Rightarrow> world" where
  "saveToCache fl now key d userId exp w =
     (case saveToCache_try fl now key d userId exp w of
        Inl err \<Rightarrow> console_error (''[CACHE] Error caching '' @ key @ '' data:'') err w
      | Inr w' \<Rightarrow> w')"

subsection \<open>clearCache and clearUserCache\<close>

definition clearCache_try :: "faults \<Rightarrow> string \<Rightarrow> string option \<Rightarrow> world \<Rightarrow> js_error + world" where
  "clearCache_try fl key userId w =
     (case AsyncStorage_removeItem fl (cacheKey key userId) w of
        Inl err \<Rightarrow> Inl err
      | Inr w' \<Rightarrow> Inr (console_log (''[CACHE] '' @ key @ '' cache cleared'') w'))"

definition clearCache :: "faults \<Rightarrow> string \<Rightarrow> string option \<Rightarrow> world \<Rightarrow> world" where
  "clearCache fl key userId w =
     (case clearCache_try fl key userId w of
        Inl err \<Rightarrow> console_error (''[CACHE] Error clearing '' @ key @ '' cache:'') err w
      | Inr w' \<Rightarrow> w')"

definition clearUserCache_try :: "faults \<Rightarrow> string \<Rightarrow> world \<Rightarrow> js_error + world" where
  "clearUserCache_try fl userId w =
     (case AsyncStorage_getAllKeys fl w of
        Inl err \<Rightarrow> Inl err
      | Inr keys \<Rightarrow>
          let userKeys = filter (\<lambda>key. str_includes key (''_'' @ userId)) keys
          in if length userKeys > 0
             then (case AsyncStorage_multiRemove fl userKeys w of
                     Inl err \<Rightarrow> Inl err
                   | Inr w' \<Rightarrow>
                       Inr (console_log (''[CACHE] All cache cleared for user '' @ userId) w'))
             else Inr w)"

definition clearUserCache :: "faults \<Rightarrow> string \<Rightarrow> world \<Rightarrow> world" where
  "clearUserCache fl userId w =
     (case clearUserCache_try fl userId w of
        Inl err \<Rightarrow> console_error ''[CACHE] Error clearing user cache:'' err w
      | Inr w' \<Rightarrow> w')"

subsection \<open>withCache, one call running alone\<close>

text \<open>
  \<open>withCache\<close> below is one call of \<^verbatim>\<open>withCache\<close> from its start to its end with no other
  call running in between, so that every \<^verbatim>\<open>await\<close> continues with what the awaited
  promise settles to. \<open>t_load\<close> and \<open>t_save\<close> are the readings of \<^verbatim>\<open>Date.now()\<close> in
  \<^verbatim>\<open>loadFromCache\<close> and in \<^verbatim>\<open>saveToCache\<close>.

  Lines 106 to 117: the \<^verbatim>\<open>try\<close> block registers the promise of \<^verbatim>\<open>fetchFn()\<close>, awaits it
  and saves the result; the \<^verbatim>\<open>finally\<close> block deletes the registration whether the
  promise resolved or rejected. The default of \<^verbatim>\<open>expiry\<close> is that of \<^verbatim>\<open>withCache\<close>, which
  passes the number on to \<^verbatim>\<open>saveToCache\<close>.
\<close>

definition withCache_request ::
  "faults \<Rightarrow> int \<Rightarrow> string \<Rightarrow> settled \<Rightarrow> string option \<Rightarrow> int option \<Rightarrow> world
     \<Rightarrow> (js_error + jsval) \<times> world" where
  "withCache_request fl t_save key fetchFn userId exp w =
     (let ck = cacheKey key userId;
          p = \<lparr>ident = fetchCalls w, outcome = fetchFn\<rparr>;
          w1 = w\<lparr>fetchCalls := Suc (fetchCalls w),
                 pendingRequests := AList.update ck p (pendingRequests w)\<rparr>;
          (r, w2) = (case outcome p of
                       Rejected err \<Rightarrow> (Inl err, w1)
                     | Resolved d \<Rightarrow>
                         (Inr d, saveToCache fl t_save key d userId
                                   (Some (expiry_or_default exp)) w1))
      in (r, w2\<lparr>pendingRequests := AList.delete ck (pendingRequests w2)\<rparr>))"

text \<open>
  Lines 99 to 117. \<^verbatim>\<open>await pendingRequests[cacheKey]\<close> awaits \<^verbatim>\<open>undefined\<close> when the key
  is not registered, the registered promise otherwise; a rejection is thrown from there,
  outside the \<^verbatim>\<open>try\<close> block. The condition tests the value the promise resolved to.
\<close>

definition withCache_pending ::
  "faults \<Rightarrow> int \<Rightarrow> string \<Rightarrow> settled \<Rightarrow> string option \<Rightarrow> int option \<Rightarrow> world
     \<Rightarrow> (js_error + jsval) \<times> world" where
  "withCache_pending fl t_save key fetchFn userId exp w =
     (case map_of (pendingRequests w) (cacheKey key userId) of
        None \<Rightarrow> withCache_request fl t_save key fetchFn userId exp w
      | Some p \<Rightarrow>
          (case outcome p of
             Rejected err \<Rightarrow> (Inl err, w)
           | Resolved v \<Rightarrow>
               if truthy v
               then (Inr v, console_log (''[CACHE] Reusing pending request for '' @ key) w)
               else withCache_request fl t_save key fetchFn userId exp w))"

definition withCache ::
  "faults \<Rightarrow> int \<Rightarrow> int \<Rightarrow> string \<Rightarrow> settled \<Rightarrow> string option \<Rightarrow> int option \<Rightarrow> bool \<Rightarrow> world
     \<Rightarrow> (js_error + jsval) \<times> world" where
  "withCache fl t_load t_save key fetchFn userId exp forceRefresh w =
     (if forceRefresh
      then withCache_pending fl t_save key fetchFn userId exp (clearCache fl key userId w)
      else
        (let (cachedData, w1) = loadFromCache fl t_load key userId w
         in if cachedData \<noteq> null then (Inr cachedData, w1)
            else withCache_pending fl t_save key fetchFn userId exp w1))"

subsection \<open>Validity of an entry\<close>

text \<open>
  The spec's invariant: an entry is valid if and only if \<^verbatim>\<open>now - storedAt < ttl\<close>, where
  the ttl of an entry is its \<^verbatim>\<open>expiry\<close> or, when it has none, the default. The entry under
  a key is readable when the store read succeeds and the stored string deserializes.
\<close>

definition ttl_of :: "envelope \<Rightarrow> jsnum" where
  "ttl_of e = (case expiry e of None \<Rightarrow> Num DEFAULT_CACHE_EXPIRY | Some x \<Rightarrow> x)"

definition entry_valid :: "int \<Rightarrow> envelope \<Rightarrow> bool" where
  "entry_valid now e = js_less (js_minus (Num now) (timestamp e)) (ttl_of e)"

definition readable_entry :: "faults \<Rightarrow> string \<Rightarrow> string option \<Rightarrow> world \<Rightarrow> envelope option" where
  "readable_entry fl key userId w =
     (if getItem_fails fl (cacheKey key userId) then None
      else case map_of (storage w) (cacheKey key userId) of
             Some (Parsed e) \<Rightarrow> Some e
           | _ \<Rightarrow> None)"

text \<open>The envelope \<^verbatim>\<open>saveToCache\<close> writes at time \<open>now\<close>.\<close>

definition envelope_of :: "jsval \<Rightarrow> int \<Rightarrow> int option \<Rightarrow> envelope" where
  "envelope_of d now exp =
     \<lparr>data = d, timestamp = Num now, expiry = Some (Num (expiry_or_default exp))\<rparr>"

definition empty_world :: world where
  "empty_world = \<lparr>storage = [], pendingRequests = [], fetchCalls = 0, console = []\<rparr>"

subsection \<open>Calls of withCache running concurrently\<close>

text \<open>
  JavaScript runs a call without interruption up to its next \<^verbatim>\<open>await\<close>, where it gives
  way to the other calls that are ready, and takes it up again once the awaited promise
  has settled (at once for \<^verbatim>\<open>await undefined\<close>, but still after the calls queued before
  it). A call of \<^verbatim>\<open>withCache\<close> is therefore a sequence of steps, one per \<^verbatim>\<open>await\<close> it
  passes, those inside \<^verbatim>\<open>loadFromCache\<close>, \<^verbatim>\<open>saveToCache\<close> and \<^verbatim>\<open>clearCache\<close> included.
  The program counter says at which \<^verbatim>\<open>await\<close> the call is suspended.
\<close>

record call =
  call_key :: string
  call_fetchFn :: settled
  call_userId :: "string option"
  call_expiry :: "int option"
  call_forceRefresh :: bool

datatype pc =
    Start
  | InClear
  | Cleared
  | InLoad
  | Loaded jsval
  | Checking "promise option"
  | Adopting promise
  | Fetching promise
  | InSave jsval
  | Saved jsval
  | Done "js_error + jsval"

text \<open>
  \<open>Start\<close>: not yet called. \<open>InClear\<close>, \<open>InLoad\<close>, \<open>InSave\<close>: inside \<^verbatim>\<open>clearCache\<close>,
  \<^verbatim>\<open>loadFromCache\<close>, \<^verbatim>\<open>saveToCache\<close>, awaiting the promise of AsyncStorage. \<open>Cleared\<close>,
  \<open>Loaded\<close>, \<open>Saved\<close>: the function has returned and \<^verbatim>\<open>withCache\<close> awaits its promise.
  \<open>Checking\<close>: line 100, awaiting the value read from \<^verbatim>\<open>pendingRequests[cacheKey]\<close>.
  \<open>Adopting\<close>: line 102 has returned a promise, and the call settles as that promise
  does. \<open>Fetching\<close>: line 108, awaiting the promise of its own \<^verbatim>\<open>fetchFn()\<close>.

  A write to the store takes effect in the step that issues it, a read in the step that
  continues after it. \<open>now\<close> is the reading of \<^verbatim>\<open>Date.now()\<close> in the step, and \<open>ss\<close> holds
  the identities of the promises settled so far. A step gives \<open>None\<close> when the call
  cannot continue: it has ended, or the promise it awaits has not settled.
\<close>

definition start_fetch :: "call \<Rightarrow> world \<Rightarrow> pc \<times> world" where
  "start_fetch c w =
     (let p = \<lparr>ident = fetchCalls w, outcome = call_fetchFn c\<rparr>
      in (Fetching p,
          w\<lparr>fetchCalls := Suc (fetchCalls w),
            pendingRequests :=
              AList.update (cacheKey (call_key c) (call_userId c)) p (pendingRequests w)\<rparr>))"

definition delete_pending :: "call \<Rightarrow> world \<Rightarrow> world" where
  "delete_pending c w =
     w\<lparr>pendingRequests :=
         AList.delete (cacheKey (call_key c) (call_userId c)) (pendingRequests w)\<rparr>"

fun resume :: "faults \<Rightarrow> int \<Rightarrow> call \<Rightarrow> nat list \<Rightarrow> pc \<Rightarrow> world \<Rightarrow> (pc \<times> world) option" where
  "resume fl now c ss Start w =
     (if call_forceRefresh c
      then Some (InClear, clearCache fl (call_key c) (call_userId c) w)
      else Some (InLoad, w))"
| "resume fl now c ss InClear w = Some (Cleared, w)"
| "resume fl now c ss Cleared w =
     Some (Checking (map_of (pendingRequests w) (cacheKey (call_key c) (call_userId c))), w)"
| "resume fl now c ss InLoad w =
     (let (cachedData, w') = loadFromCache fl now (call_key c) (call_userId c) w
      in Some (Loaded cachedData, w'))"
| "resume fl now c ss (Loaded cachedData) w =
     (if cachedData \<noteq> null then Some (Done (Inr cachedData), w)
      else Some (Checking (map_of (pendingRequests w) (cacheKey (call_key c) (call_userId c))), w))"
| "resume fl now c ss (Checking None) w = Some (start_fetch c w)"
| "resume fl now c ss (Checking (Some p)) w =
     (if ident p \<notin> set ss then None
      else
        (case outcome p of
           Rejected err \<Rightarrow> Some (Done (Inl err), w)
         | Resolved v \<Rightarrow>
             if truthy v
             then
               (let w' = console_log (''[CACHE] Reusing pending request for '' @ call_key c) w
                in case map_of (pendingRequests w') (cacheKey (call_key c) (call_userId c)) of
                     None \<Rightarrow> Some (Done (Inr Undefined), w')
                   | Some q \<Rightarrow> Some (Adopting q, w'))
             else Some (start_fetch c w)))"
| "resume fl now c ss (Adopting q) w =
     (if ident q \<notin> set ss then None
      else Some (Done (case outcome q of Rejected err \<Rightarrow> Inl err | Resolved v \<Rightarrow> Inr v), w))"
| "resume fl now c ss (Fetching p) w =
     (if ident p \<notin> set ss then None
      else
        (case outcome p of
           Rejected err \<Rightarrow> Some (Done (Inl err), delete_pending c w)
         | Resolved d \<Rightarrow>
             Some (InSave d,
                   saveToCache fl now (call_key c) d (call_userId c)
                     (Some (expiry_or_default (call_expiry c))) w)))"
| "resume fl now c ss (InSave d) w = Some (Saved d, w)"
| "resume fl now c ss (Saved d) w = Some (Done (Inr d), delete_pending c w)"
| "resume fl now c ss (Done r) w = None"

text \<open>
  What happens, in order: \<open>Run i now\<close> lets call \<open>i\<close> take its next step, and \<open>Settle p\<close>
  settles the promise that the \<open>p\<close>-th call of a fetch function returned. The calls share
  the store and \<^verbatim>\<open>pendingRequests\<close>. A sequence of events that asks for a step that
  cannot be taken gives \<open>None\<close>.
\<close>

datatype event = Run nat int | Settle nat

record machine =
  m_world :: world
  m_pcs :: "pc list"
  m_settled :: "nat list"

definition initial :: "call list \<Rightarrow> world \<Rightarrow> machine" where
  "initial cs w = \<lparr>m_world = w, m_pcs = replicate (length cs) Start, m_settled = []\<rparr>"

fun exec :: "faults \<Rightarrow> call list \<Rightarrow> event list \<Rightarrow> machine \<Rightarrow> machine option" where
  "exec fl cs [] m = Some m"
| "exec fl cs (Run i now # es) m =
     (if i < length cs \<and> i < length (m_pcs m)
      then
        (case resume fl now (cs ! i) (m_settled m) (m_pcs m ! i) (m_world m) of
           None \<Rightarrow> None
         | Some (pc', w') \<Rightarrow> exec fl cs es (m\<lparr>m_world := w', m_pcs := (m_pcs m)[i := pc']\<rparr>))
      else None)"
| "exec fl cs (Settle p # es) m =
     (if p < fetchCalls (m_world m) \<and> p \<notin> set (m_settled m)
      then exec fl cs es (m\<lparr>m_settled := p # m_settled m\<rparr>)
      else None)"

subsection \<open>Example inputs\<close>

text \<open>
  The spec's scenario: the key \<^verbatim>\<open>rooms\<close> of user \<^verbatim>\<open>user123\<close>, a fetch function that returns
  \<^verbatim>\<open>[{id:"r1"}]\<close> and a later one that returns \<^verbatim>\<open>[{id:"r2"}]\<close>, with a ttl of 900000 ms.
  \<open>example_world\<close> holds the first result, stored at time 1000, beside a corrupted entry.
\<close>

definition rooms_r1 :: jsval where
  "rooms_r1 = Val (JArr [JObj [(''id'', JStr ''r1'')]])"

definition rooms_r2 :: jsval where
  "rooms_r2 = Val (JArr [JObj [(''id'', JStr ''r2'')]])"

definition example_entry :: envelope where
  "example_entry = \<lparr>data = rooms_r1, timestamp = Num 1000, expiry = Some (Num 900000)\<rparr>"

definition example_world :: world where
  "example_world =
     \<lparr>storage = [(''rooms_user123'', Parsed example_entry), (''plan_user123'', Unparseable)],
      pendingRequests = [], fetchCalls = 0, console = []\<rparr>"

text \<open>Two users whose identifiers share a prefix, each with a cached list of rooms.\<close>

definition two_users_world :: world where
  "two_users_world =
     \<lparr>storage = [(''eiga_user_rooms_user1'', Parsed example_entry),
                 (''eiga_user_rooms_user12'', Parsed example_entry)],
      pendingRequests = [], fetchCalls = 0, console = []\<rparr>"

text \<open>
  The call \<^verbatim>\<open>withCache("rooms", fetchRooms, "user123", 900000)\<close> of the spec's scenario,
  and two orders in which two such calls can run. In \<open>lockstep\<close> both are made one after
  the other before either continues, and they continue in the order in which they were
  suspended, as the calls of \<^verbatim>\<open>Promise.all([withCache(..), withCache(..)])\<close> do when the
  store answers both reads in the same turn of the event loop; the promises of the two
  fetches then settle, and both calls run to their end. In \<open>staggered\<close> the second call
  reads the cache only after the first has registered its fetch.
\<close>

definition rooms_call :: call where
  "rooms_call = \<lparr>call_key = ''rooms'', call_fetchFn = Resolved rooms_r1,
     call_userId = Some ''user123'', call_expiry = Some 900000, call_forceRefresh = False\<rparr>"

definition lockstep :: "event list" where
  "lockstep =
     [Run 0 1000, Run 1 1000, Run 0 1001, Run 1 1001, Run 0 1001, Run 1 1001,
      Run 0 1001, Run 1 1001, Settle 0, Settle 1, Run 0 1500, Run 1 1500,
      Run 0 1501, Run 1 1501, Run 0 1501, Run 1 1501]"

definition staggered :: "event list" where
  "staggered =
     [Run 0 1000, Run 0 1001, Run 0 1001, Run 0 1001, Run 1 1002, Run 1 1003, Run 1 1003,
      Settle 0, Run 0 1500, Run 1 1500, Run 0 1501, Run 1 1501, Run 0 1501]"

text \<open>
  The same two calls with a fetch function that resolves with the falsy payload \<^verbatim>\<open>0\<close>, the
  second call again reading the cache only after the first has registered its fetch.
\<close>

definition count_call :: call where
  "count_call = \<lparr>call_key = ''count'', call_fetchFn = Resolved (Val (JNum 0)),
     call_userId = Some ''user123'', call_expiry = None, call_forceRefresh = False\<rparr>"

definition staggered_falsy :: "event list" where
  "staggered_falsy =
     [Run 0 1000, Run 0 1001, Run 0 1001, Run 0 1001, Run 1 1002, Run 1 1003, Run 1 1003,
      Settle 0, Run 0 1500, Run 1 1500, Settle 1, Run 0 1501, Run 1 1501, Run 0 1501,
      Run 1 1502, Run 1 1502]"

text \<open>
  One call running alone: it takes its steps up to the \<^verbatim>\<open>await\<close> of its fetch, the promise
  \<open>n\<close> of the fetch settles, and it takes the rest. A call that returns from the cache
  ends after the first three steps, one whose fetch rejects after the sixth event.
\<close>

definition alone :: "int \<Rightarrow> int \<Rightarrow> nat \<Rightarrow> event list" where
  "alone t_load t_save n =
     [Run 0 t_load, Run 0 t_load, Run 0 t_load, Run 0 t_load, Settle n,
      Run 0 t_save, Run 0 t_save, Run 0 t_save]"

text \<open>
  \<open>example_world\<close> at a moment when a request is registered for the key \<^verbatim>\<open>rooms\<close> of
  \<^verbatim>\<open>user123\<close>: its fetch has resolved with \<^verbatim>\<open>null\<close>, and the call that made it has not yet
  reached its \<^verbatim>\<open>finally\<close> block.
\<close>

definition busy_world :: world where
  "busy_world =
     example_world\<lparr>pendingRequests := [(''rooms_user123'', \<lparr>ident = 0, outcome = Resolved null\<rparr>)],
                   fetchCalls := 1\<rparr>"

section \<open>Properties of one call\<close>

subsection \<open>What each function does to the state\<close>

lemmas store_defs = AsyncStorage_getItem_def AsyncStorage_setItem_def AsyncStorage_removeItem_def
  AsyncStorage_getAllKeys_def AsyncStorage_multiRemove_def console_log_def console_error_def

lemma loadFromCache_result:
  "fst (loadFromCache fl now key userId w) =
     (case readable_entry fl key userId w of
        Some e \<Rightarrow> if entry_valid now e then data e else null
      | None \<Rightarrow> null)"
  by (simp add: loadFromCache_def loadFromCache_try_def readable_entry_def entry_valid_def
      ttl_of_def AsyncStorage_getItem_def Let_def split: option.splits stored.splits)

lemma loadFromCache_frame:
  "storage (snd (loadFromCache fl now key userId w)) = storage w"
  "pendingRequests (snd (loadFromCache fl now key userId w)) = pendingRequests w"
  "fetchCalls (snd (loadFromCache fl now key userId w)) = fetchCalls w"
  by (simp_all add: loadFromCache_def loadFromCache_try_def store_defs Let_def
      split: option.splits stored.splits sum.splits)

lemma readable_entry_cong:
  "storage w' = storage w \<Longrightarrow> readable_entry fl key userId w' = readable_entry fl key userId w"
  by (simp add: readable_entry_def)

lemma entry_valid_Num:
  "timestamp e = Num storedAt \<Longrightarrow> ttl_of e = Num ttl \<Longrightarrow> entry_valid now e = (now - storedAt < ttl)"
  by (simp add: entry_valid_def)

lemma entry_valid_antimono:
  "entry_valid t' e \<Longrightarrow> t \<le> t' \<Longrightarrow> entry_valid t e"
  by (cases "timestamp e"; cases "ttl_of e") (auto simp: entry_valid_def)

lemma entry_valid_envelope_of:
  "entry_valid now (envelope_of d t exp) = (now - t < expiry_or_default exp)"
  by (simp add: entry_valid_def envelope_of_def ttl_of_def)

lemma saveToCache_storage:
  "storage (saveToCache fl now key d userId exp w) =
     (if setItem_fails fl (cacheKey key userId) then storage w
      else AList.update (cacheKey key userId) (Parsed (envelope_of d now exp)) (storage w))"
  by (simp add: saveToCache_def saveToCache_try_def store_defs JSON_stringify_def Let_def
      envelope_of_def)

lemma saveToCache_frame:
  "pendingRequests (saveToCache fl now key d userId exp w) = pendingRequests w"
  "fetchCalls (saveToCache fl now key d userId exp w) = fetchCalls w"
  by (simp_all add: saveToCache_def saveToCache_try_def store_defs Let_def)

lemma clearCache_storage:
  "storage (clearCache fl key userId w) =
     (if removeItem_fails fl (cacheKey key userId) then storage w
      else AList.delete (cacheKey key userId) (storage w))"
  by (simp add: clearCache_def clearCache_try_def store_defs)

lemma clearCache_frame:
  "pendingRequests (clearCache fl key userId w) = pendingRequests w"
  "fetchCalls (clearCache fl key userId w) = fetchCalls w"
  by (simp_all add: clearCache_def clearCache_try_def store_defs)

lemma readable_entry_saved:
  "\<not> setItem_fails fl (cacheKey key userId) \<Longrightarrow> \<not> getItem_fails fl (cacheKey key userId) \<Longrightarrow>
   readable_entry fl key userId (saveToCache fl' now key d userId exp w) =
     (if setItem_fails fl' (cacheKey key userId) then readable_entry fl key userId w
      else Some (envelope_of d now exp))"
  by (simp add: readable_entry_def saveToCache_storage update_conv')

text \<open>The request part: what it returns and leaves behind.\<close>

lemma withCache_request_Rejected:
  "withCache_request fl t_save key (Rejected err) userId exp w =
     (Inl err, w\<lparr>fetchCalls := Suc (fetchCalls w),
                 pendingRequests := AList.delete (cacheKey key userId) (pendingRequests w)\<rparr>)"
  by (simp add: withCache_request_def Let_def delete_update_same)

lemma saveToCache_default:
  "saveToCache fl now key d userId (Some (expiry_or_default exp)) w =
     saveToCache fl now key d userId exp w"
  by (simp add: saveToCache_def saveToCache_try_def expiry_or_default_def)

lemma withCache_request_Resolved:
  "withCache_request fl t_save key (Resolved d) userId exp w =
     (Inr d, (saveToCache fl t_save key d userId exp (w\<lparr>fetchCalls := Suc (fetchCalls w)\<rparr>))
               \<lparr>pendingRequests := AList.delete (cacheKey key userId) (pendingRequests w)\<rparr>)"
  by (simp add: withCache_request_def Let_def delete_update_same saveToCache_def
      saveToCache_try_def store_defs expiry_or_default_def split: sum.splits)

lemma withCache_pending_free:
  "map_of (pendingRequests w) (cacheKey key userId) = None \<Longrightarrow>
   withCache_pending fl t_save key fetchFn userId exp w =
     withCache_request fl t_save key fetchFn userId exp w"
  by (simp add: withCache_pending_def)

lemma withCache_hit:
  assumes "readable_entry fl key userId w = Some e" and "entry_valid t_load e"
    and "data e \<noteq> null"
  shows "withCache fl t_load t_save key fetchFn userId exp False w =
           (Inr (data e), snd (loadFromCache fl t_load key userId w))"
proof -
  have "fst (loadFromCache fl t_load key userId w) = data e"
    using assms by (simp add: loadFromCache_result)
  then show ?thesis
    using assms(3) by (simp add: withCache_def split_beta)
qed

lemma withCache_miss:
  assumes "forceRefresh \<or> fst (loadFromCache fl t_load key userId w) = null"
    and "map_of (pendingRequests w) (cacheKey key userId) = None"
  shows "withCache fl t_load t_save key fetchFn userId exp forceRefresh w =
           withCache_request fl t_save key fetchFn userId exp
             (if forceRefresh then clearCache fl key userId w
              else snd (loadFromCache fl t_load key userId w))"
  using assms
  by (auto simp: withCache_def split_beta withCache_pending_free clearCache_frame
      loadFromCache_frame)

lemma map_of_delete_same: "map_of (AList.delete k al) k = None"
  by (simp add: delete_conv')

text \<open>The definitions unfolded to run the model on a concrete input.\<close>

lemmas run_defs = withCache_def withCache_pending_def withCache_request_def loadFromCache_def
  loadFromCache_try_def saveToCache_def saveToCache_try_def clearCache_def clearCache_try_def
  clearUserCache_def clearUserCache_try_def store_defs JSON_stringify_def no_faults_def
  empty_world_def example_world_def example_entry_def rooms_r1_def rooms_r2_def cacheKey_def
  expiry_or_default_def DEFAULT_CACHE_EXPIRY_def readable_entry_def entry_valid_def ttl_of_def
  envelope_of_def Let_def

text \<open>Composite keys and what a write leaves under them.\<close>

lemma cacheKey_scopes_distinct:
  "scopeA \<noteq> scopeB \<Longrightarrow> cacheKey key (Some scopeA) \<noteq> cacheKey key (Some scopeB)"
  by (auto simp: cacheKey_def)

lemma map_of_saved_other:
  assumes "ck' \<noteq> cacheKey key userId"
  shows "map_of (storage (saveToCache fl now key d userId exp w)) ck' = map_of (storage w) ck'"
  using assms by (simp add: saveToCache_storage update_conv')

lemma map_of_saved:
  "\<not> setItem_fails fl (cacheKey key userId) \<Longrightarrow>
   map_of (storage (saveToCache fl now key d userId exp w)) (cacheKey key userId) =
     Some (Parsed (envelope_of d now exp))"
  by (simp add: saveToCache_storage update_conv')

lemma readable_entry_map_of:
  "\<not> getItem_fails fl (cacheKey key userId) \<Longrightarrow>
   map_of (storage w) (cacheKey key userId) = Some (Parsed e) \<Longrightarrow>
   readable_entry fl key userId w = Some e"
  by (simp add: readable_entry_def)

text \<open>A call that reaches the fetch function, with no request registered for its key.\<close>

lemma withCache_fetch_Resolved:
  assumes "forceRefresh \<or> fst (loadFromCache fl t_load key userId w) = null"
    and "map_of (pendingRequests w) (cacheKey key userId) = None"
  shows "fst (withCache fl t_load t_save key (Resolved v) userId exp forceRefresh w) = Inr v"
    and "fetchCalls (snd (withCache fl t_load t_save key (Resolved v) userId exp forceRefresh w))
           = Suc (fetchCalls w)"
    and "storage (snd (withCache fl t_load t_save key (Resolved v) userId exp forceRefresh w))
           = storage (saveToCache fl t_save key v userId exp
                (if forceRefresh then clearCache fl key userId w else w))"
    and "map_of (pendingRequests
            (snd (withCache fl t_load t_save key (Resolved v) userId exp forceRefresh w)))
           (cacheKey key userId) = None"
  using assms
  by (simp_all add: withCache_miss withCache_request_Resolved saveToCache_frame
      saveToCache_storage clearCache_storage clearCache_frame loadFromCache_frame
      map_of_delete_same)

lemma withCache_fetch_Rejected:
  assumes "forceRefresh \<or> fst (loadFromCache fl t_load key userId w) = null"
    and "map_of (pendingRequests w) (cacheKey key userId) = None"
  shows "fst (withCache fl t_load t_save key (Rejected err) userId exp forceRefresh w) = Inl err"
    and "fetchCalls (snd (withCache fl t_load t_save key (Rejected err) userId exp forceRefresh w))
           = Suc (fetchCalls w)"
    and "storage (snd (withCache fl t_load t_save key (Rejected err) userId exp forceRefresh w))
           = storage (if forceRefresh then clearCache fl key userId w else w)"
    and "map_of (pendingRequests
            (snd (withCache fl t_load t_save key (Rejected err) userId exp forceRefresh w)))
           (cacheKey key userId) = None"
  using assms
  by (simp_all add: withCache_miss withCache_request_Rejected clearCache_frame
      loadFromCache_frame map_of_delete_same)

lemma loadFromCache_expired:
  assumes "map_of (storage w) (cacheKey key userId) = Some (Parsed e)"
    and "\<not> entry_valid now e"
  shows "fst (loadFromCache fl now key userId w) = null"
  using assms by (simp add: loadFromCache_result readable_entry_def)

lemma loadFromCache_miss_later:
  assumes "fst (loadFromCache fl t key userId w) = null" and "t \<le> t'"
    and "storage w' = storage w"
  shows "fst (loadFromCache fl t' key userId w') = null"
proof (cases "readable_entry fl key userId w")
  case None
  then show ?thesis
    using assms(3) by (simp add: loadFromCache_result readable_entry_cong [of w' w])
next
  case (Some e)
  then have "entry_valid t e \<longrightarrow> data e = null"
    using assms(1) by (simp add: loadFromCache_result split: if_splits)
  moreover have "entry_valid t' e \<longrightarrow> entry_valid t e"
    using assms(2) by (auto intro: entry_valid_antimono)
  ultimately show ?thesis
    using Some assms(3) by (simp add: loadFromCache_result readable_entry_cong [of w' w])
qed

text \<open>
  A call that called its fetch function went through the request part, whatever was
  registered when it started; and after a successful removal the key is a miss.
\<close>

lemma withCache_called:
  assumes "fetchCalls (snd (withCache fl t_load t_save key fetchFn userId exp forceRefresh w))
             \<noteq> fetchCalls w"
  shows "withCache fl t_load t_save key fetchFn userId exp forceRefresh w =
           withCache_request fl t_save key fetchFn userId exp
             (if forceRefresh then clearCache fl key userId w
              else snd (loadFromCache fl t_load key userId w))"
    and "forceRefresh \<or> fst (loadFromCache fl t_load key userId w) = null"
  using assms
  by (auto simp: withCache_def withCache_pending_def split_beta clearCache_frame
      loadFromCache_frame console_log_def
      split: if_splits option.splits settled.splits)

lemma loadFromCache_cleared:
  assumes "\<not> removeItem_fails fl (cacheKey key userId)"
    and "storage w' = storage (clearCache fl key userId w)"
  shows "fst (loadFromCache fl' now key userId w') = null"
  using assms
  by (simp add: loadFromCache_result readable_entry_def clearCache_storage map_of_delete_same)

subsection \<open>The sweep of clearUserCache\<close>

text \<open>
  \<^verbatim>\<open>includes\<close> is a substring test; a suffix is one of the substrings. With the store
  working, \<^verbatim>\<open>clearUserCache\<close> keeps exactly the entries whose key does not contain
  \<^verbatim>\<open>_userId\<close> anywhere.
\<close>

lemma str_includes_iff: "str_includes s sub \<longleftrightarrow> (\<exists>ps ss. s = ps @ sub @ ss)"
proof (induction s)
  case Nil
  then show ?case by auto
next
  case (Cons c s)
  show ?case
  proof
    assume "str_includes (c # s) sub"
    then consider "prefix sub (c # s)" | "str_includes s sub"
      by auto
    then show "\<exists>ps ss. c # s = ps @ sub @ ss"
    proof cases
      case 1
      then obtain ss where "c # s = sub @ ss"
        by (auto simp: prefix_def)
      then have "c # s = [] @ sub @ ss"
        by simp
      then show ?thesis
        by blast
    next
      case 2
      then obtain ps ss where "s = ps @ sub @ ss"
        using Cons.IH by blast
      then have "c # s = (c # ps) @ sub @ ss"
        by simp
      then show ?thesis
        by blast
    qed
  next
    assume "\<exists>ps ss. c # s = ps @ sub @ ss"
    then obtain ps ss where eq: "c # s = ps @ sub @ ss"
      by blast
    show "str_includes (c # s) sub"
    proof (cases ps)
      case Nil
      then have "prefix sub (c # s)"
        using eq by (simp add: prefix_def)
      then show ?thesis
        by simp
    next
      case (Cons p ps')
      then have "s = ps' @ sub @ ss"
        using eq by simp
      then have "str_includes s sub"
        using Cons.IH by blast
      then show ?thesis
        by simp
    qed
  qed
qed

lemma suffix_str_includes:
  assumes "suffix sub s"
  shows "str_includes s sub"
proof -
  obtain zs where "s = zs @ sub"
    using assms by (auto simp: suffix_def)
  then have "s = zs @ sub @ []"
    by simp
  then show ?thesis
    unfolding str_includes_iff by blast
qed

lemma filter_not_in_filtered:
  "filter (\<lambda>(k, v). k \<notin> set (filter P (map fst al))) al = filter (\<lambda>(k, v). \<not> P k) al"
  by (rule filter_cong) (auto simp: image_iff)

lemma clearUserCache_storage:
  assumes "\<not> getAllKeys_fails fl" and "\<not> multiRemove_fails fl"
  shows "storage (clearUserCache fl userId w) =
           filter (\<lambda>(k, v). \<not> str_includes k (''_'' @ userId)) (storage w)"
proof (cases "filter (\<lambda>key. str_includes key (''_'' @ userId)) (map fst (storage w)) = []")
  case True
  then have "\<forall>k \<in> set (map fst (storage w)). \<not> str_includes k (''_'' @ userId)"
    by (simp add: filter_empty_conv)
  then have "filter (\<lambda>(k, v). \<not> str_includes k (''_'' @ userId)) (storage w) = storage w"
    by (auto simp: filter_id_conv)
  then show ?thesis
    using assms True
    by (simp add: clearUserCache_def clearUserCache_try_def AsyncStorage_getAllKeys_def)
next
  case False
  have "storage (clearUserCache fl userId w) =
          filter (\<lambda>(k, v). k \<notin> set (filter (\<lambda>key. str_includes key (''_'' @ userId))
                                           (map fst (storage w)))) (storage w)"
    using assms False
    by (simp add: clearUserCache_def clearUserCache_try_def AsyncStorage_getAllKeys_def
        AsyncStorage_multiRemove_def console_log_def del: set_filter set_map)
  then show ?thesis
    by (simp only: filter_not_in_filtered)
qed

section \<open>Calls running concurrently\<close>

text \<open>
  A call that runs alone through the steps ends with the result and in the state that
  \<open>withCache\<close> gives: the steps and the function are the same program.
\<close>

lemma exec_alone_hit:
  assumes "\<not> call_forceRefresh c"
    and "fst (loadFromCache fl t_load (call_key c) (call_userId c) w) \<noteq> null"
  shows "exec fl [c] (take 3 (alone t_load t_save n)) (initial [c] w) =
           Some \<lparr>m_world = snd (withCache fl t_load t_save (call_key c) (call_fetchFn c)
                     (call_userId c) (call_expiry c) (call_forceRefresh c) w),
                 m_pcs = [Done (fst (withCache fl t_load t_save (call_key c) (call_fetchFn c)
                     (call_userId c) (call_expiry c) (call_forceRefresh c) w))],
                 m_settled = []\<rparr>"
  using assms
  by (simp add: alone_def initial_def withCache_def split_beta)

lemma exec_alone_Resolved:
  assumes "call_forceRefresh c \<or> fst (loadFromCache fl t_load (call_key c) (call_userId c) w) = null"
    and "map_of (pendingRequests w) (cacheKey (call_key c) (call_userId c)) = None"
    and "call_fetchFn c = Resolved v"
  shows "exec fl [c] (alone t_load t_save (fetchCalls w)) (initial [c] w) =
           Some \<lparr>m_world = snd (withCache fl t_load t_save (call_key c) (call_fetchFn c)
                     (call_userId c) (call_expiry c) (call_forceRefresh c) w),
                 m_pcs = [Done (fst (withCache fl t_load t_save (call_key c) (call_fetchFn c)
                     (call_userId c) (call_expiry c) (call_forceRefresh c) w))],
                 m_settled = [fetchCalls w]\<rparr>"
  using assms
  by (auto simp: alone_def initial_def withCache_def split_beta withCache_pending_def
      withCache_request_def Let_def start_fetch_def delete_pending_def clearCache_frame
      loadFromCache_frame saveToCache_frame saveToCache_default)

lemma exec_alone_Rejected:
  assumes "call_forceRefresh c \<or> fst (loadFromCache fl t_load (call_key c) (call_userId c) w) = null"
    and "map_of (pendingRequests w) (cacheKey (call_key c) (call_userId c)) = None"
    and "call_fetchFn c = Rejected err"
  shows "exec fl [c] (take 6 (alone t_load t_save (fetchCalls w))) (initial [c] w) =
           Some \<lparr>m_world = snd (withCache fl t_load t_save (call_key c) (call_fetchFn c)
                     (call_userId c) (call_expiry c) (call_forceRefresh c) w),
                 m_pcs = [Done (fst (withCache fl t_load t_save (call_key c) (call_fetchFn c)
                     (call_userId c) (call_expiry c) (call_forceRefresh c) w))],
                 m_settled = [fetchCalls w]\<rparr>"
  using assms
  by (auto simp: alone_def initial_def withCache_def split_beta withCache_pending_def
      withCache_request_def Let_def start_fetch_def delete_pending_def clearCache_frame
      loadFromCache_frame saveToCache_frame saveToCache_default)

lemma withCache_run_alone:
  assumes "map_of (pendingRequests w) (cacheKey (call_key c) (call_userId c)) = None"
  shows "\<exists>es ss. exec fl [c] es (initial [c] w) =
           Some \<lparr>m_world = snd (withCache fl t_load t_save (call_key c) (call_fetchFn c)
                     (call_userId c) (call_expiry c) (call_forceRefresh c) w),
                 m_pcs = [Done (fst (withCache fl t_load t_save (call_key c) (call_fetchFn c)
                     (call_userId c) (call_expiry c) (call_forceRefresh c) w))],
                 m_settled = ss\<rparr>"
proof (cases "call_forceRefresh c \<or>
    fst (loadFromCache fl t_load (call_key c) (call_userId c) w) = null")
  case False
  then show ?thesis
    using exec_alone_hit [of c fl t_load w t_save] by blast
next
  case True
  show ?thesis
  proof (cases "call_fetchFn c")
    case (Resolved v)
    show ?thesis
      using exec_alone_Resolved [OF True assms Resolved, of t_save] by blast
  next
    case (Rejected err)
    show ?thesis
      using exec_alone_Rejected [OF True assms Rejected, of t_save] by blast
  qed
qed

text \<open>
  On the steps, the registration shows between the step that calls the fetch function and
  the step that continues after its promise has rejected: the first registers the
  promise under the key, the second, in whatever state the other calls have left,
  returns the error and deletes what is registered under the key.
\<close>

lemma rejected_fetch_registers_then_deregisters:
  assumes "call_fetchFn c = Rejected err"
  shows "resume fl now c ss (Checking None) w =
           Some (Fetching \<lparr>ident = fetchCalls w, outcome = Rejected err\<rparr>, snd (start_fetch c w))
     \<and> map_of (pendingRequests (snd (start_fetch c w))) (cacheKey (call_key c) (call_userId c))
         = Some \<lparr>ident = fetchCalls w, outcome = Rejected err\<rparr>
     \<and> resume fl now' c (fetchCalls w # ss')
           (Fetching \<lparr>ident = fetchCalls w, outcome = Rejected err\<rparr>) w'
         = Some (Done (Inl err), delete_pending c w')
     \<and> map_of (pendingRequests (delete_pending c w')) (cacheKey (call_key c) (call_userId c)) = None
     \<and> storage (delete_pending c w') = storage w'"
  using assms
  by (simp add: start_fetch_def delete_pending_def Let_def update_conv' map_of_delete_same)

text \<open>
  Two calls for one key that miss the cache and take their steps in turn both read
  \<^verbatim>\<open>pendingRequests\<close> before either has registered its fetch, and both call the fetch
  function, whatever the key, the fetch function and the state they start in.
\<close>

lemma loadFromCache_same_storage:
  "storage w' = storage w \<Longrightarrow>
   fst (loadFromCache fl now key userId w') = fst (loadFromCache fl now key userId w)"
  by (simp add: loadFromCache_result readable_entry_cong [of w' w])

lemma two_calls_in_step_fetch_twice:
  assumes "\<not> call_forceRefresh c"
    and "fst (loadFromCache fl t (call_key c) (call_userId c) w) = null"
    and "map_of (pendingRequests w) (cacheKey (call_key c) (call_userId c)) = None"
  shows "\<exists>m. exec fl [c, c]
              [Run 0 t0, Run 1 t0, Run 0 t, Run 1 t, Run 0 t1, Run 1 t1, Run 0 t2, Run 1 t2]
              (initial [c, c] w) = Some m
           \<and> fetchCalls (m_world m) = fetchCalls w + 2
           \<and> m_pcs m = [Fetching \<lparr>ident = fetchCalls w, outcome = call_fetchFn c\<rparr>,
                        Fetching \<lparr>ident = Suc (fetchCalls w), outcome = call_fetchFn c\<rparr>]"
proof -
  let ?w1 = "snd (loadFromCache fl t (call_key c) (call_userId c) w)"
  let ?w2 = "snd (loadFromCache fl t (call_key c) (call_userId c) ?w1)"
  have "fst (loadFromCache fl t (call_key c) (call_userId c) ?w1) = null"
    using assms(2) by (simp add: loadFromCache_same_storage [of ?w1 w] loadFromCache_frame)
  moreover have "map_of (pendingRequests ?w2) (cacheKey (call_key c) (call_userId c)) = None"
    using assms(3) by (simp add: loadFromCache_frame)
  ultimately show ?thesis
    using assms
    by (simp add: initial_def split_beta start_fetch_def loadFromCache_frame Let_def)
qed

text \<open>
  When the second call reads \<^verbatim>\<open>pendingRequests\<close> after the first has registered its
  fetch, it awaits that promise and returns its payload: one call of the fetch function.
  Unless the payload is falsy: the condition of line 100 tests the value the promise
  resolved to, and the second call fetches again.
\<close>

lemma staggered_calls_fetch_once:
  "exec no_faults [rooms_call, rooms_call] staggered
       (initial [rooms_call, rooms_call] empty_world) \<noteq> None
   \<and> fetchCalls (m_world (the (exec no_faults [rooms_call, rooms_call] staggered
         (initial [rooms_call, rooms_call] empty_world)))) = 1
   \<and> m_pcs (the (exec no_faults [rooms_call, rooms_call] staggered
         (initial [rooms_call, rooms_call] empty_world)))
       = [Done (Inr rooms_r1), Done (Inr rooms_r1)]"
  by (simp add: staggered_def initial_def rooms_call_def start_fetch_def delete_pending_def run_defs)

lemma staggered_falsy_calls_fetch_twice:
  "exec no_faults [count_call, count_call] staggered_falsy
       (initial [count_call, count_call] empty_world) \<noteq> None
   \<and> fetchCalls (m_world (the (exec no_faults [count_call, count_call] staggered_falsy
         (initial [count_call, count_call] empty_world)))) = 2
   \<and> m_pcs (the (exec no_faults [count_call, count_call] staggered_falsy
         (initial [count_call, count_call] empty_world)))
       = [Done (Inr (Val (JNum 0))), Done (Inr (Val (JNum 0)))]"
  by (simp add: staggered_falsy_def initial_def count_call_def start_fetch_def delete_pending_def
      run_defs)

section \<open>The claims\<close>

subsection \<open>C7: get is total and validity-exact\<close>

text \<open>
  Claim C7. For every store content, every fault of the store and every clock reading,
  \<^verbatim>\<open>loadFromCache\<close> returns the stored payload when the entry under the composite key is
  readable and deserializable and \<^verbatim>\<open>now - storedAt < ttl\<close>, and \<^verbatim>\<open>null\<close> in every other
  case. An exception thrown inside its \<^verbatim>\<open>try\<close> block (a failed read, a string that does
  not parse) never leaves the function: the result is \<^verbatim>\<open>null\<close>, as for a miss. The read
  leaves the store as it is; an expired entry is not deleted.
\<close>

theorem loadFromCache_total_validity_exact:
  "(\<forall>e. readable_entry fl key userId w = Some e \<and> entry_valid now e
        \<longrightarrow> fst (loadFromCache fl now key userId w) = data e)
   \<and> ((\<nexists>e. readable_entry fl key userId w = Some e \<and> entry_valid now e)
        \<longrightarrow> fst (loadFromCache fl now key userId w) = null)
   \<and> (\<forall>err. loadFromCache_try fl now key userId w = Inl err
        \<longrightarrow> fst (loadFromCache fl now key userId w) = null)
   \<and> storage (snd (loadFromCache fl now key userId w)) = storage w"
proof (intro conjI allI impI)
  fix e
  assume "readable_entry fl key userId w = Some e \<and> entry_valid now e"
  then show "fst (loadFromCache fl now key userId w) = data e"
    by (simp add: loadFromCache_result)
next
  assume "\<nexists>e. readable_entry fl key userId w = Some e \<and> entry_valid now e"
  then show "fst (loadFromCache fl now key userId w) = null"
    by (cases "readable_entry fl key userId w") (auto simp: loadFromCache_result)
next
  fix err
  assume "loadFromCache_try fl now key userId w = Inl err"
  then show "fst (loadFromCache fl now key userId w) = null"
    by (simp add: loadFromCache_def)
next
  show "storage (snd (loadFromCache fl now key userId w)) = storage w"
    by (rule loadFromCache_frame)
qed

text \<open>
  On \<open>example_world\<close>: the entry of \<^verbatim>\<open>rooms\<close> is returned at time 2000, it is a miss at
  time 901000, when it has expired, and the corrupted entry of \<^verbatim>\<open>plan\<close> is a miss.
\<close>

theorem loadFromCache_total_validity_exact_witness:
  "(readable_entry no_faults ''rooms'' (Some ''user123'') example_world = Some example_entry
      \<and> entry_valid 2000 example_entry
      \<and> fst (loadFromCache no_faults 2000 ''rooms'' (Some ''user123'') example_world) = rooms_r1)
   \<and> (\<not> entry_valid 901000 example_entry
      \<and> fst (loadFromCache no_faults 901000 ''rooms'' (Some ''user123'') example_world) = null)
   \<and> (loadFromCache_try no_faults 2000 ''plan'' (Some ''user123'') example_world = Inl SyntaxError
      \<and> fst (loadFromCache no_faults 2000 ''plan'' (Some ''user123'') example_world) = null)"
proof -
  have r: "readable_entry no_faults ''rooms'' (Some ''user123'') example_world = Some example_entry"
    by (simp add: readable_entry_def no_faults_def example_world_def cacheKey_def)
  have v: "entry_valid 2000 example_entry" and nv: "\<not> entry_valid 901000 example_entry"
    by (simp_all add: entry_valid_def example_entry_def ttl_of_def)
  have t: "loadFromCache_try no_faults 2000 ''plan'' (Some ''user123'') example_world = Inl SyntaxError"
    by (simp add: loadFromCache_try_def AsyncStorage_getItem_def no_faults_def example_world_def
        cacheKey_def)
  have none: "\<nexists>e. readable_entry no_faults ''rooms'' (Some ''user123'') example_world = Some e
                \<and> entry_valid 901000 e"
    using r nv by simp
  note c7 = loadFromCache_total_validity_exact
  have 1: "fst (loadFromCache no_faults 2000 ''rooms'' (Some ''user123'') example_world) = rooms_r1"
    using c7 [of no_faults "''rooms''" "Some ''user123''" example_world 2000] r v
    by (simp add: example_entry_def)
  have 2: "fst (loadFromCache no_faults 901000 ''rooms'' (Some ''user123'') example_world) = null"
    using c7 [of no_faults "''rooms''" "Some ''user123''" example_world 901000] none by blast
  have 3: "fst (loadFromCache no_faults 2000 ''plan'' (Some ''user123'') example_world) = null"
    using c7 [of no_faults "''plan''" "Some ''user123''" example_world 2000] t by blast
  show ?thesis
    using r v nv t 1 2 3 by simp
qed

subsection \<open>C2: a cache hit avoids the fetch\<close>

text \<open>
  Claim C2, as stated: with a freshly set, unexpired entry of payload \<open>p\<close> under a key,
  \<^verbatim>\<open>withCache\<close> with \<^verbatim>\<open>forceRefresh = false\<close> resolves to \<open>p\<close> and does not call the fetch
  function, for every payload that \<^verbatim>\<open>saveToCache\<close> accepted. It fails for the payload
  \<^verbatim>\<open>null\<close>: \<^verbatim>\<open>saveToCache\<close> stores it, the entry is readable and valid, but
  \<^verbatim>\<open>cachedData !== null\<close> takes the \<^verbatim>\<open>null\<close> that \<^verbatim>\<open>loadFromCache\<close> returns for a miss,
  and the fetch function is called.
\<close>

theorem cache_hit_null_counterexample:
  "readable_entry no_faults ''rooms'' (Some ''user123'')
       (saveToCache no_faults 1000 ''rooms'' null (Some ''user123'') None empty_world)
     = Some (envelope_of null 1000 None)
   \<and> entry_valid 2000 (envelope_of null 1000 None)
   \<and> \<not> (fst (withCache no_faults 2000 2001 ''rooms'' (Resolved rooms_r2)
              (Some ''user123'') None False
              (saveToCache no_faults 1000 ''rooms'' null (Some ''user123'') None empty_world))
          = Inr null
        \<and> fetchCalls (snd (withCache no_faults 2000 2001 ''rooms'' (Resolved rooms_r2)
              (Some ''user123'') None False
              (saveToCache no_faults 1000 ''rooms'' null (Some ''user123'') None empty_world)))
          = fetchCalls
              (saveToCache no_faults 1000 ''rooms'' null (Some ''user123'') None empty_world))"
  by (simp add: run_defs)

text \<open>
  Claim C2, amended: the same for every payload other than \<^verbatim>\<open>null\<close>. The entry is set at
  time \<open>t_set\<close> with ttl \<open>exp\<close> (the default when \<open>None\<close>), the write and the later read
  of the store succeed, and the call reads the clock at \<open>t_load\<close>, before the entry
  expires. Then the call resolves to \<open>p\<close> and the number of calls of fetch functions is
  what it was.
\<close>

theorem cache_hit_avoids_fetch:
  assumes stored: "\<not> setItem_fails fl (cacheKey key userId)"
    and readable: "\<not> getItem_fails fl (cacheKey key userId)"
    and fresh: "t_load - t_set < expiry_or_default exp"
    and not_null: "p \<noteq> null"
  shows "fst (withCache fl t_load t_save key fetchFn userId exp' False
                (saveToCache fl t_set key p userId exp w)) = Inr p
       \<and> fetchCalls (snd (withCache fl t_load t_save key fetchFn userId exp' False
                (saveToCache fl t_set key p userId exp w))) = fetchCalls w"
proof -
  let ?w1 = "saveToCache fl t_set key p userId exp w"
  have r: "readable_entry fl key userId ?w1 = Some (envelope_of p t_set exp)"
    using stored readable by (simp add: readable_entry_saved)
  have v: "entry_valid t_load (envelope_of p t_set exp)"
    using fresh by (simp add: entry_valid_envelope_of)
  have d: "data (envelope_of p t_set exp) \<noteq> null"
    using not_null by (simp add: envelope_of_def)
  have "withCache fl t_load t_save key fetchFn userId exp' False ?w1 =
          (Inr (data (envelope_of p t_set exp)), snd (loadFromCache fl t_load key userId ?w1))"
    by (rule withCache_hit [OF r v d])
  then show ?thesis
    by (simp add: envelope_of_def loadFromCache_frame saveToCache_frame)
qed

text \<open>
  The spec's scenario: \<^verbatim>\<open>[{id:"r1"}]\<close> was cached at time 1000; a call at time 2000 whose
  fetch function would return \<^verbatim>\<open>[{id:"r2"}]\<close> still returns \<^verbatim>\<open>[{id:"r1"}]\<close>.
\<close>

theorem cache_hit_avoids_fetch_witness:
  "\<not> setItem_fails no_faults (cacheKey ''rooms'' (Some ''user123''))
   \<and> \<not> getItem_fails no_faults (cacheKey ''rooms'' (Some ''user123''))
   \<and> (2000::int) - 1000 < expiry_or_default (Some 900000)
   \<and> rooms_r1 \<noteq> null
   \<and> fst (withCache no_faults 2000 2001 ''rooms'' (Resolved rooms_r2)
            (Some ''user123'') (Some 900000) False
            (saveToCache no_faults 1000 ''rooms'' rooms_r1 (Some ''user123'') (Some 900000)
               empty_world))
       = Inr rooms_r1
   \<and> fetchCalls (snd (withCache no_faults 2000 2001 ''rooms'' (Resolved rooms_r2)
            (Some ''user123'') (Some 900000) False
            (saveToCache no_faults 1000 ''rooms'' rooms_r1 (Some ''user123'') (Some 900000)
               empty_world)))
       = fetchCalls empty_world"
proof -
  have h1: "\<not> setItem_fails no_faults (cacheKey ''rooms'' (Some ''user123''))"
    and h2: "\<not> getItem_fails no_faults (cacheKey ''rooms'' (Some ''user123''))"
    by (simp_all add: no_faults_def)
  have h3: "(2000::int) - 1000 < expiry_or_default (Some 900000)"
    by (simp add: expiry_or_default_def)
  have h4: "rooms_r1 \<noteq> null"
    by (simp add: rooms_r1_def)
  show ?thesis
    using h1 h2 h3 h4 cache_hit_avoids_fetch [OF h1 h2 h3 h4, of 2001 "Resolved rooms_r2"
        "Some 900000" empty_world]
    by simp
qed

subsection \<open>C6: scope isolation\<close>

text \<open>
  Claim C6. For every logical key and every two distinct scopes, \<^verbatim>\<open>saveToCache\<close> of
  \<open>payloadA\<close> under \<open>scopeA\<close> and of \<open>payloadB\<close> under \<open>scopeB\<close> write to distinct
  composite keys and do not overwrite each other: the store holds both envelopes, and
  afterwards \<^verbatim>\<open>loadFromCache\<close> returns \<open>payloadA\<close> for \<open>scopeA\<close> and \<open>payloadB\<close> for
  \<open>scopeB\<close>. The store operations are taken to succeed, and each read to happen before
  the entry it reads expires (\<^verbatim>\<open>now - storedAt < ttl\<close>), as the spec's invariant on validity
  requires of any read. A scope is a string here; the empty string is one, and gives the
  bare key.
\<close>

theorem scope_isolation:
  assumes distinct: "scopeA \<noteq> scopeB"
    and wA: "\<not> setItem_fails fl (cacheKey key (Some scopeA))"
    and wB: "\<not> setItem_fails fl (cacheKey key (Some scopeB))"
    and rA: "\<not> getItem_fails fl (cacheKey key (Some scopeA))"
    and rB: "\<not> getItem_fails fl (cacheKey key (Some scopeB))"
    and vA: "t_getA - t_setA < expiry_or_default expA"
    and vB: "t_getB - t_setB < expiry_or_default expB"
  shows "cacheKey key (Some scopeA) \<noteq> cacheKey key (Some scopeB)
     \<and> map_of (storage (saveToCache fl t_setB key payloadB (Some scopeB) expB
                 (saveToCache fl t_setA key payloadA (Some scopeA) expA w)))
         (cacheKey key (Some scopeA)) = Some (Parsed (envelope_of payloadA t_setA expA))
     \<and> map_of (storage (saveToCache fl t_setB key payloadB (Some scopeB) expB
                 (saveToCache fl t_setA key payloadA (Some scopeA) expA w)))
         (cacheKey key (Some scopeB)) = Some (Parsed (envelope_of payloadB t_setB expB))
     \<and> fst (loadFromCache fl t_getA key (Some scopeA)
              (saveToCache fl t_setB key payloadB (Some scopeB) expB
                 (saveToCache fl t_setA key payloadA (Some scopeA) expA w))) = payloadA
     \<and> fst (loadFromCache fl t_getB key (Some scopeB)
              (snd (loadFromCache fl t_getA key (Some scopeA)
                 (saveToCache fl t_setB key payloadB (Some scopeB) expB
                    (saveToCache fl t_setA key payloadA (Some scopeA) expA w))))) = payloadB"
proof -
  let ?w1 = "saveToCache fl t_setA key payloadA (Some scopeA) expA w"
  let ?w2 = "saveToCache fl t_setB key payloadB (Some scopeB) expB ?w1"
  let ?w3 = "snd (loadFromCache fl t_getA key (Some scopeA) ?w2)"
  have keys: "cacheKey key (Some scopeA) \<noteq> cacheKey key (Some scopeB)"
    by (rule cacheKey_scopes_distinct [OF distinct])
  have "map_of (storage ?w2) (cacheKey key (Some scopeA)) =
          map_of (storage ?w1) (cacheKey key (Some scopeA))"
    by (rule map_of_saved_other [OF keys])
  then have a: "map_of (storage ?w2) (cacheKey key (Some scopeA)) =
                  Some (Parsed (envelope_of payloadA t_setA expA))"
    using wA by (simp add: map_of_saved)
  have b: "map_of (storage ?w2) (cacheKey key (Some scopeB)) =
             Some (Parsed (envelope_of payloadB t_setB expB))"
    using wB by (simp add: map_of_saved)
  have ra: "readable_entry fl key (Some scopeA) ?w2 = Some (envelope_of payloadA t_setA expA)"
    by (rule readable_entry_map_of [OF rA a])
  have "readable_entry fl key (Some scopeB) ?w2 = Some (envelope_of payloadB t_setB expB)"
    by (rule readable_entry_map_of [OF rB b])
  then have rb: "readable_entry fl key (Some scopeB) ?w3 = Some (envelope_of payloadB t_setB expB)"
    by (simp add: readable_entry_cong [of ?w3 ?w2] loadFromCache_frame)
  have va: "entry_valid t_getA (envelope_of payloadA t_setA expA)"
    and vb: "entry_valid t_getB (envelope_of payloadB t_setB expB)"
    using vA vB by (simp_all add: entry_valid_envelope_of)
  have da: "data (envelope_of payloadA t_setA expA) = payloadA"
    and db: "data (envelope_of payloadB t_setB expB) = payloadB"
    by (simp_all add: envelope_of_def)
  have ga: "fst (loadFromCache fl t_getA key (Some scopeA) ?w2) = payloadA"
    using ra va da by (simp add: loadFromCache_result)
  have gb: "fst (loadFromCache fl t_getB key (Some scopeB) ?w3) = payloadB"
    using rb vb db by (simp add: loadFromCache_result)
  show ?thesis
    using keys a b ga gb by simp
qed

text \<open>Two users' rooms, set one after the other with the default ttl, then read.\<close>

theorem scope_isolation_witness:
  "''user123'' \<noteq> ''user456''
   \<and> \<not> setItem_fails no_faults (cacheKey ''rooms'' (Some ''user123''))
   \<and> \<not> setItem_fails no_faults (cacheKey ''rooms'' (Some ''user456''))
   \<and> \<not> getItem_fails no_faults (cacheKey ''rooms'' (Some ''user123''))
   \<and> \<not> getItem_fails no_faults (cacheKey ''rooms'' (Some ''user456''))
   \<and> (3000::int) - 1000 < expiry_or_default None
   \<and> (4000::int) - 2000 < expiry_or_default None
   \<and> fst (loadFromCache no_faults 3000 ''rooms'' (Some ''user123'')
            (saveToCache no_faults 2000 ''rooms'' rooms_r2 (Some ''user456'') None
               (saveToCache no_faults 1000 ''rooms'' rooms_r1 (Some ''user123'') None
                  empty_world))) = rooms_r1
   \<and> fst (loadFromCache no_faults 4000 ''rooms'' (Some ''user456'')
            (snd (loadFromCache no_faults 3000 ''rooms'' (Some ''user123'')
               (saveToCache no_faults 2000 ''rooms'' rooms_r2 (Some ''user456'') None
                  (saveToCache no_faults 1000 ''rooms'' rooms_r1 (Some ''user123'') None
                     empty_world))))) = rooms_r2"
proof -
  have d: "''user123'' \<noteq> ''user456''"
    by simp
  have wA: "\<not> setItem_fails no_faults (cacheKey ''rooms'' (Some ''user123''))"
    and wB: "\<not> setItem_fails no_faults (cacheKey ''rooms'' (Some ''user456''))"
    and rA: "\<not> getItem_fails no_faults (cacheKey ''rooms'' (Some ''user123''))"
    and rB: "\<not> getItem_fails no_faults (cacheKey ''rooms'' (Some ''user456''))"
    by (simp_all add: no_faults_def)
  have vA: "(3000::int) - 1000 < expiry_or_default None"
    and vB: "(4000::int) - 2000 < expiry_or_default None"
    by (simp_all add: expiry_or_default_def DEFAULT_CACHE_EXPIRY_def)
  show ?thesis
    using d wA wB rA rB vA vB
      scope_isolation [OF d wA wB rA rB vA vB, of rooms_r2 rooms_r1 empty_world]
    by simp
qed

subsection \<open>C5: expiry triggers a refetch\<close>

text \<open>
  Claim C5. When the entry stored under the key has expired at the time of the read
  (\<^verbatim>\<open>now - storedAt >= ttl\<close>), no request is registered for the key, and the fetch function
  resolves with \<open>v\<close>, \<^verbatim>\<open>withCache\<close> calls the fetch function exactly once, returns \<open>v\<close>,
  and writes \<open>v\<close> to the store as the new entry of the key, stamped with the time of the
  write and the ttl of the call; the registration it made is gone. The write is taken to
  succeed (claim C9 is about the other case).
\<close>

theorem expiry_triggers_refetch:
  assumes entry: "map_of (storage w) (cacheKey key userId) = Some (Parsed e)"
    and ts: "timestamp e = Num storedAt"
    and ttl: "ttl_of e = Num ttl"
    and expired: "t_load - storedAt \<ge> ttl"
    and free: "map_of (pendingRequests w) (cacheKey key userId) = None"
    and can_write: "\<not> setItem_fails fl (cacheKey key userId)"
  shows "fst (withCache fl t_load t_save key (Resolved v) userId exp False w) = Inr v
     \<and> fetchCalls (snd (withCache fl t_load t_save key (Resolved v) userId exp False w))
         = Suc (fetchCalls w)
     \<and> map_of (storage (snd (withCache fl t_load t_save key (Resolved v) userId exp False w)))
         (cacheKey key userId) = Some (Parsed (envelope_of v t_save exp))
     \<and> map_of (pendingRequests
           (snd (withCache fl t_load t_save key (Resolved v) userId exp False w)))
         (cacheKey key userId) = None"
proof -
  have "\<not> entry_valid t_load e"
    using expired by (simp add: entry_valid_Num [OF ts ttl])
  then have miss: "False \<or> fst (loadFromCache fl t_load key userId w) = null"
    using entry by (simp add: loadFromCache_expired)
  show ?thesis
    using can_write
    by (simp add: withCache_fetch_Resolved [OF miss free] map_of_saved)
qed

text \<open>
  The spec's scenario, after the 15 minutes: the entry stored at time 1000 is read at time
  901000, the fetch function returns \<^verbatim>\<open>[{id:"r2"}]\<close>, and that is returned and stored.
\<close>

theorem expiry_triggers_refetch_witness:
  "map_of (storage example_world) (cacheKey ''rooms'' (Some ''user123'')) = Some (Parsed example_entry)
   \<and> timestamp example_entry = Num 1000
   \<and> ttl_of example_entry = Num 900000
   \<and> (901000::int) - 1000 \<ge> 900000
   \<and> map_of (pendingRequests example_world) (cacheKey ''rooms'' (Some ''user123'')) = None
   \<and> \<not> setItem_fails no_faults (cacheKey ''rooms'' (Some ''user123''))
   \<and> fst (withCache no_faults 901000 901500 ''rooms'' (Resolved rooms_r2) (Some ''user123'')
            (Some 900000) False example_world) = Inr rooms_r2
   \<and> fetchCalls (snd (withCache no_faults 901000 901500 ''rooms'' (Resolved rooms_r2)
            (Some ''user123'') (Some 900000) False example_world)) = Suc (fetchCalls example_world)
   \<and> map_of (storage (snd (withCache no_faults 901000 901500 ''rooms'' (Resolved rooms_r2)
            (Some ''user123'') (Some 900000) False example_world)))
         (cacheKey ''rooms'' (Some ''user123''))
       = Some (Parsed (envelope_of rooms_r2 901500 (Some 900000)))"
proof -
  have h1: "map_of (storage example_world) (cacheKey ''rooms'' (Some ''user123''))
              = Some (Parsed example_entry)"
    by (simp add: example_world_def cacheKey_def)
  have h2: "timestamp example_entry = Num 1000" and h3: "ttl_of example_entry = Num 900000"
    by (simp_all add: example_entry_def ttl_of_def)
  have h4: "(901000::int) - 1000 \<ge> 900000"
    by simp
  have h5: "map_of (pendingRequests example_world) (cacheKey ''rooms'' (Some ''user123'')) = None"
    by (simp add: example_world_def)
  have h6: "\<not> setItem_fails no_faults (cacheKey ''rooms'' (Some ''user123''))"
    by (simp add: no_faults_def)
  show ?thesis
    using h1 h2 h3 h4 h5 h6
      expiry_triggers_refetch [OF h1 h2 h3 h4 h5 h6, of 901500 rooms_r2 "Some 900000"]
    by simp
qed

subsection \<open>C8: forceRefresh bypasses the cache\<close>

text \<open>
  Claim C8. With a valid, unexpired entry under the key and no request registered for it,
  \<^verbatim>\<open>withCache\<close> with \<^verbatim>\<open>forceRefresh = true\<close> removes the entry (\<^verbatim>\<open>clearCache\<close> leaves nothing
  under the key), does not read the cache, calls the fetch function once, and on success
  returns its result \<open>v\<close> and stores it as the entry of the key. That the entry was
  removed before the fetch shows when the fetch function rejects: the error is returned
  and nothing is left under the key. The removal and the write are taken to succeed.
\<close>

theorem forceRefresh_bypasses_cache:
  assumes entry: "readable_entry fl key userId w = Some e"
    and valid: "entry_valid t_load e"
    and free: "map_of (pendingRequests w) (cacheKey key userId) = None"
    and can_remove: "\<not> removeItem_fails fl (cacheKey key userId)"
    and can_write: "\<not> setItem_fails fl (cacheKey key userId)"
  shows "map_of (storage (clearCache fl key userId w)) (cacheKey key userId) = None
     \<and> fst (withCache fl t_load t_save key (Resolved v) userId exp True w) = Inr v
     \<and> fetchCalls (snd (withCache fl t_load t_save key (Resolved v) userId exp True w))
         = Suc (fetchCalls w)
     \<and> map_of (storage (snd (withCache fl t_load t_save key (Resolved v) userId exp True w)))
         (cacheKey key userId) = Some (Parsed (envelope_of v t_save exp))
     \<and> fst (withCache fl t_load t_save key (Rejected err) userId exp True w) = Inl err
     \<and> map_of (storage (snd (withCache fl t_load t_save key (Rejected err) userId exp True w)))
         (cacheKey key userId) = None"
proof -
  have reach: "True \<or> fst (loadFromCache fl t_load key userId w) = null"
    by simp
  have gone: "map_of (storage (clearCache fl key userId w)) (cacheKey key userId) = None"
    using can_remove by (simp add: clearCache_storage map_of_delete_same)
  show ?thesis
    using can_write gone
    by (simp add: withCache_fetch_Resolved [OF reach free] withCache_fetch_Rejected [OF reach free]
        map_of_saved)
qed

text \<open>The spec's scenario, with a forced refresh at time 2000, well within the 15 minutes.\<close>

theorem forceRefresh_bypasses_cache_witness:
  "readable_entry no_faults ''rooms'' (Some ''user123'') example_world = Some example_entry
   \<and> entry_valid 2000 example_entry
   \<and> map_of (pendingRequests example_world) (cacheKey ''rooms'' (Some ''user123'')) = None
   \<and> \<not> removeItem_fails no_faults (cacheKey ''rooms'' (Some ''user123''))
   \<and> \<not> setItem_fails no_faults (cacheKey ''rooms'' (Some ''user123''))
   \<and> fst (withCache no_faults 2000 2500 ''rooms'' (Resolved rooms_r2) (Some ''user123'')
            (Some 900000) True example_world) = Inr rooms_r2
   \<and> fetchCalls (snd (withCache no_faults 2000 2500 ''rooms'' (Resolved rooms_r2)
            (Some ''user123'') (Some 900000) True example_world)) = Suc (fetchCalls example_world)
   \<and> map_of (storage (snd (withCache no_faults 2000 2500 ''rooms'' (Resolved rooms_r2)
            (Some ''user123'') (Some 900000) True example_world)))
         (cacheKey ''rooms'' (Some ''user123''))
       = Some (Parsed (envelope_of rooms_r2 2500 (Some 900000)))"
proof -
  have h1: "readable_entry no_faults ''rooms'' (Some ''user123'') example_world = Some example_entry"
    by (simp add: readable_entry_def no_faults_def example_world_def cacheKey_def)
  have h2: "entry_valid 2000 example_entry"
    by (simp add: entry_valid_def example_entry_def ttl_of_def)
  have h3: "map_of (pendingRequests example_world) (cacheKey ''rooms'' (Some ''user123'')) = None"
    by (simp add: example_world_def)
  have h4: "\<not> removeItem_fails no_faults (cacheKey ''rooms'' (Some ''user123''))"
    and h5: "\<not> setItem_fails no_faults (cacheKey ''rooms'' (Some ''user123''))"
    by (simp_all add: no_faults_def)
  show ?thesis
    using h1 h2 h3 h4 h5
      forceRefresh_bypasses_cache [OF h1 h2 h3 h4 h5, of 2500 rooms_r2 "Some 900000"]
    by simp
qed

subsection \<open>C9: store write failures are swallowed\<close>

text \<open>
  Claim C9. When the write to the store inside \<^verbatim>\<open>saveToCache\<close> fails, the \<^verbatim>\<open>try\<close> block
  throws, and \<^verbatim>\<open>saveToCache\<close> logs the error and returns normally, leaving the state as it
  was but for the console. A call of \<^verbatim>\<open>withCache\<close> whose fetch function resolved with \<open>v\<close>
  still returns \<open>v\<close>; nothing is written under the key, and the registration is removed.
\<close>

theorem store_write_failure_swallowed:
  assumes fails: "setItem_fails fl (cacheKey key userId)"
    and reach: "forceRefresh \<or> fst (loadFromCache fl t_load key userId w) = null"
    and free: "map_of (pendingRequests w) (cacheKey key userId) = None"
  shows "saveToCache_try fl now key d userId exp w = Inl StorageError
     \<and> saveToCache fl now key d userId exp w
         = console_error (''[CACHE] Error caching '' @ key @ '' data:'') StorageError w
     \<and> fst (withCache fl t_load t_save key (Resolved v) userId exp forceRefresh w) = Inr v
     \<and> fetchCalls (snd (withCache fl t_load t_save key (Resolved v) userId exp forceRefresh w))
         = Suc (fetchCalls w)
     \<and> map_of (storage (snd (withCache fl t_load t_save key (Resolved v) userId exp forceRefresh w)))
           (cacheKey key userId)
         = map_of (storage (if forceRefresh then clearCache fl key userId w else w))
             (cacheKey key userId)
     \<and> map_of (pendingRequests
           (snd (withCache fl t_load t_save key (Resolved v) userId exp forceRefresh w)))
         (cacheKey key userId) = None"
proof -
  have thrown: "saveToCache_try fl now key d userId exp w = Inl StorageError"
    using fails by (simp add: saveToCache_try_def AsyncStorage_setItem_def)
  then have save: "saveToCache fl now key d userId exp w
      = console_error (''[CACHE] Error caching '' @ key @ '' data:'') StorageError w"
    by (simp add: saveToCache_def)
  show ?thesis
    using thrown save fails
    by (simp add: withCache_fetch_Resolved [OF reach free] saveToCache_storage)
qed

text \<open>Every write fails, the store is empty, and the fetch function returns \<^verbatim>\<open>[{id:"r1"}]\<close>.\<close>

theorem store_write_failure_swallowed_witness:
  "setItem_fails (no_faults\<lparr>setItem_fails := (\<lambda>k. True)\<rparr>) (cacheKey ''rooms'' (Some ''user123''))
   \<and> fst (loadFromCache (no_faults\<lparr>setItem_fails := (\<lambda>k. True)\<rparr>) 1000 ''rooms''
            (Some ''user123'') empty_world) = null
   \<and> map_of (pendingRequests empty_world) (cacheKey ''rooms'' (Some ''user123'')) = None
   \<and> saveToCache_try (no_faults\<lparr>setItem_fails := (\<lambda>k. True)\<rparr>) 1500 ''rooms'' rooms_r1
         (Some ''user123'') (Some 900000) empty_world = Inl StorageError
   \<and> console (saveToCache (no_faults\<lparr>setItem_fails := (\<lambda>k. True)\<rparr>) 1500 ''rooms'' rooms_r1
         (Some ''user123'') (Some 900000) empty_world)
       = [Error ''[CACHE] Error caching rooms data:'' StorageError]
   \<and> fst (withCache (no_faults\<lparr>setItem_fails := (\<lambda>k. True)\<rparr>) 1000 1500 ''rooms''
            (Resolved rooms_r1) (Some ''user123'') (Some 900000) False empty_world) = Inr rooms_r1
   \<and> storage (snd (withCache (no_faults\<lparr>setItem_fails := (\<lambda>k. True)\<rparr>) 1000 1500 ''rooms''
            (Resolved rooms_r1) (Some ''user123'') (Some 900000) False empty_world)) = []"
proof -
  let ?fl = "no_faults\<lparr>setItem_fails := (\<lambda>k. True)\<rparr>"
  have h1: "setItem_fails ?fl (cacheKey ''rooms'' (Some ''user123''))"
    by simp
  have miss: "fst (loadFromCache ?fl 1000 ''rooms'' (Some ''user123'') empty_world) = null"
    by (simp add: loadFromCache_result readable_entry_def empty_world_def)
  then have h2: "False \<or> fst (loadFromCache ?fl 1000 ''rooms'' (Some ''user123'') empty_world) = null"
    by simp
  have h3: "map_of (pendingRequests empty_world) (cacheKey ''rooms'' (Some ''user123'')) = None"
    by (simp add: empty_world_def)
  have st: "storage (snd (withCache ?fl 1000 1500 ''rooms'' (Resolved rooms_r1) (Some ''user123'')
              (Some 900000) False empty_world)) = []"
    using withCache_fetch_Resolved(3) [OF h2 h3, of 1500 rooms_r1 "Some 900000"]
    by (simp add: saveToCache_storage) (simp add: empty_world_def)
  show ?thesis
    using h1 miss h3 st
      store_write_failure_swallowed [OF h1 h2 h3, of 1500 rooms_r1 "Some 900000" 1500 rooms_r1]
    by (simp add: console_error_def empty_world_def)
qed

subsection \<open>C10: a cached null payload behaves as a miss\<close>

text \<open>
  Claim C10. After \<^verbatim>\<open>saveToCache\<close> of the payload \<^verbatim>\<open>null\<close> the entry is in the store,
  readable and unexpired, and yet \<^verbatim>\<open>loadFromCache\<close> returns \<^verbatim>\<open>null\<close>, exactly what it
  returns once the entry has been removed; a following \<^verbatim>\<open>withCache\<close> calls the fetch
  function again and returns its result. The same holds when the \<^verbatim>\<open>null\<close> was cached by
  a call of \<^verbatim>\<open>withCache\<close> whose fetch function resolved with \<^verbatim>\<open>null\<close>: the next call
  fetches again.
\<close>

theorem cached_null_is_a_miss:
  assumes can_write: "\<not> setItem_fails fl (cacheKey key userId)"
    and can_read: "\<not> getItem_fails fl (cacheKey key userId)"
    and fresh: "t_load - t_set < expiry_or_default exp"
    and free: "map_of (pendingRequests w) (cacheKey key userId) = None"
    and reach: "forceRefresh \<or> fst (loadFromCache fl t_first key userId w) = null"
  shows "readable_entry fl key userId (saveToCache fl t_set key null userId exp w)
           = Some (envelope_of null t_set exp)
     \<and> entry_valid t_load (envelope_of null t_set exp)
     \<and> fst (loadFromCache fl t_load key userId (saveToCache fl t_set key null userId exp w)) = null
     \<and> fst (loadFromCache fl t_load key userId
              (clearCache fl key userId (saveToCache fl t_set key null userId exp w))) = null
     \<and> fst (withCache fl t_load t_save key (Resolved v) userId exp' False
              (saveToCache fl t_set key null userId exp w)) = Inr v
     \<and> fetchCalls (snd (withCache fl t_load t_save key (Resolved v) userId exp' False
              (saveToCache fl t_set key null userId exp w))) = Suc (fetchCalls w)
     \<and> readable_entry fl key userId
           (snd (withCache fl t_first t_set key (Resolved null) userId exp forceRefresh w))
           = Some (envelope_of null t_set exp)
     \<and> fst (withCache fl t_load t_save key (Resolved v) userId exp' False
              (snd (withCache fl t_first t_set key (Resolved null) userId exp forceRefresh w)))
         = Inr v
     \<and> fetchCalls (snd (withCache fl t_load t_save key (Resolved v) userId exp' False
              (snd (withCache fl t_first t_set key (Resolved null) userId exp forceRefresh w))))
         = Suc (Suc (fetchCalls w))"
proof -
  let ?w1 = "saveToCache fl t_set key null userId exp w"
  let ?w2 = "snd (withCache fl t_first t_set key (Resolved null) userId exp forceRefresh w)"
  have r1: "readable_entry fl key userId ?w1 = Some (envelope_of null t_set exp)"
    using can_write can_read by (simp add: readable_entry_saved)
  have v: "entry_valid t_load (envelope_of null t_set exp)"
    using fresh by (simp add: entry_valid_envelope_of)
  have d: "data (envelope_of null t_set exp) = null"
    by (simp add: envelope_of_def)
  have l1: "fst (loadFromCache fl t_load key userId ?w1) = null"
    using r1 v d by (simp add: loadFromCache_result)
  have l0: "fst (loadFromCache fl t_load key userId (clearCache fl key userId ?w1)) = null"
    by (cases "readable_entry fl key userId (clearCache fl key userId ?w1)")
      (auto simp: loadFromCache_result readable_entry_def clearCache_storage saveToCache_storage
        update_conv' delete_conv' can_write d split: if_splits)
  have m1: "False \<or> fst (loadFromCache fl t_load key userId ?w1) = null"
    using l1 by simp
  have f1: "map_of (pendingRequests ?w1) (cacheKey key userId) = None"
    using free by (simp add: saveToCache_frame)
  have s2: "storage ?w2 = storage (saveToCache fl t_set key null userId exp
                (if forceRefresh then clearCache fl key userId w else w))"
    by (rule withCache_fetch_Resolved(3) [OF reach free])
  have "map_of (storage ?w2) (cacheKey key userId) = Some (Parsed (envelope_of null t_set exp))"
    using can_write by (simp add: s2 map_of_saved)
  then have r2: "readable_entry fl key userId ?w2 = Some (envelope_of null t_set exp)"
    by (rule readable_entry_map_of [OF can_read])
  then have l2: "fst (loadFromCache fl t_load key userId ?w2) = null"
    using v d by (simp add: loadFromCache_result)
  then have m2: "False \<or> fst (loadFromCache fl t_load key userId ?w2) = null"
    by simp
  have f2: "map_of (pendingRequests ?w2) (cacheKey key userId) = None"
    by (rule withCache_fetch_Resolved(4) [OF reach free])
  have c2: "fetchCalls ?w2 = Suc (fetchCalls w)"
    by (rule withCache_fetch_Resolved(2) [OF reach free])
  show ?thesis
    using r1 v l1 l0 r2 c2
    by (simp add: withCache_fetch_Resolved [OF m1 f1] withCache_fetch_Resolved [OF m2 f2]
        saveToCache_frame)
qed

text \<open>A \<^verbatim>\<open>null\<close> cached at time 1000 and read at time 2000, with a ttl of 900000.\<close>

theorem cached_null_is_a_miss_witness:
  "\<not> setItem_fails no_faults (cacheKey ''rooms'' (Some ''user123''))
   \<and> \<not> getItem_fails no_faults (cacheKey ''rooms'' (Some ''user123''))
   \<and> (2000::int) - 1000 < expiry_or_default (Some 900000)
   \<and> map_of (pendingRequests empty_world) (cacheKey ''rooms'' (Some ''user123'')) = None
   \<and> fst (loadFromCache no_faults 900 ''rooms'' (Some ''user123'') empty_world) = null
   \<and> fst (loadFromCache no_faults 2000 ''rooms'' (Some ''user123'')
            (saveToCache no_faults 1000 ''rooms'' null (Some ''user123'') (Some 900000)
               empty_world)) = null
   \<and> fst (withCache no_faults 2000 2500 ''rooms'' (Resolved rooms_r1) (Some ''user123'')
            (Some 900000) False
            (saveToCache no_faults 1000 ''rooms'' null (Some ''user123'') (Some 900000)
               empty_world)) = Inr rooms_r1
   \<and> fetchCalls (snd (withCache no_faults 2000 2500 ''rooms'' (Resolved rooms_r1)
            (Some ''user123'') (Some 900000) False
            (snd (withCache no_faults 900 1000 ''rooms'' (Resolved null) (Some ''user123'')
               (Some 900000) False empty_world)))) = Suc (Suc (fetchCalls empty_world))"
proof -
  have h1: "\<not> setItem_fails no_faults (cacheKey ''rooms'' (Some ''user123''))"
    and h2: "\<not> getItem_fails no_faults (cacheKey ''rooms'' (Some ''user123''))"
    by (simp_all add: no_faults_def)
  have h3: "(2000::int) - 1000 < expiry_or_default (Some 900000)"
    by (simp add: expiry_or_default_def)
  have h4: "map_of (pendingRequests empty_world) (cacheKey ''rooms'' (Some ''user123'')) = None"
    by (simp add: empty_world_def)
  have miss: "fst (loadFromCache no_faults 900 ''rooms'' (Some ''user123'') empty_world) = null"
    by (simp add: loadFromCache_result readable_entry_def empty_world_def)
  then have h5: "False \<or> fst (loadFromCache no_faults 900 ''rooms'' (Some ''user123'') empty_world) = null"
    by simp
  show ?thesis
    using h1 h2 h3 h4 miss
      cached_null_is_a_miss [OF h1 h2 h3 h4 h5, of 2500 rooms_r1 "Some 900000"]
    by simp
qed

subsection \<open>C4: a failed fetch is not cached and does not block a retry\<close>

text \<open>
  Claim C4. Take a call of \<^verbatim>\<open>withCache\<close> that called its fetch function, from any state
  and with anything registered in \<^verbatim>\<open>pendingRequests\<close> when it started, and whose fetch
  function rejects with \<open>err\<close>. It returns the same \<open>err\<close>; it writes nothing to the store
  (the store is what it was, after the removal of the entry if \<^verbatim>\<open>forceRefresh\<close>); and
  nothing is registered under the key when it ends: the \<^verbatim>\<open>finally\<close> block has deleted the
  registration despite the failure. A following call for the same key, with either value
  of \<^verbatim>\<open>forceRefresh\<close>, whose fetch function resolves with \<open>v\<close>, calls that function and
  returns \<open>v\<close>. For the following call the clock reading is not earlier than that of the
  first, and when it follows a forced refresh without forcing one itself, the removal
  made by the first has succeeded (else it may find the old entry and return that). The
  last three parts are about lines 106 to 117 alone, started in any state \<open>w0\<close>: the
  error is returned, the key is not registered afterwards, and the store is untouched.
\<close>

theorem failed_fetch_not_cached_unblocks_retry:
  assumes called:
      "fetchCalls (snd (withCache fl t_load t_save key (Rejected err) userId exp forceRefresh w))
         \<noteq> fetchCalls w"
    and later: "t_load \<le> t_load'"
    and removed: "forceRefresh \<longrightarrow> forceRefresh' \<or> \<not> removeItem_fails fl (cacheKey key userId)"
  shows "fst (withCache fl t_load t_save key (Rejected err) userId exp forceRefresh w) = Inl err
     \<and> storage (snd (withCache fl t_load t_save key (Rejected err) userId exp forceRefresh w))
         = storage (if forceRefresh then clearCache fl key userId w else w)
     \<and> map_of (pendingRequests
           (snd (withCache fl t_load t_save key (Rejected err) userId exp forceRefresh w)))
         (cacheKey key userId) = None
     \<and> fetchCalls (snd (withCache fl t_load t_save key (Rejected err) userId exp forceRefresh w))
         = Suc (fetchCalls w)
     \<and> fst (withCache fl t_load' t_save' key (Resolved v) userId exp' forceRefresh'
              (snd (withCache fl t_load t_save key (Rejected err) userId exp forceRefresh w)))
         = Inr v
     \<and> fetchCalls (snd (withCache fl t_load' t_save' key (Resolved v) userId exp' forceRefresh'
              (snd (withCache fl t_load t_save key (Rejected err) userId exp forceRefresh w))))
         = Suc (Suc (fetchCalls w))
     \<and> fst (withCache_request fl t_save key (Rejected err) userId exp w0) = Inl err
     \<and> map_of (pendingRequests (snd (withCache_request fl t_save key (Rejected err) userId exp w0)))
         (cacheKey key userId) = None
     \<and> storage (snd (withCache_request fl t_save key (Rejected err) userId exp w0)) = storage w0"
proof -
  let ?base = "if forceRefresh then clearCache fl key userId w
               else snd (loadFromCache fl t_load key userId w)"
  let ?w1 = "snd (withCache fl t_load t_save key (Rejected err) userId exp forceRefresh w)"
  have eq: "withCache fl t_load t_save key (Rejected err) userId exp forceRefresh w =
              withCache_request fl t_save key (Rejected err) userId exp ?base"
    by (rule withCache_called(1) [OF called])
  have reach: "forceRefresh \<or> fst (loadFromCache fl t_load key userId w) = null"
    by (rule withCache_called(2) [OF called])
  have r1: "fst (withCache fl t_load t_save key (Rejected err) userId exp forceRefresh w) = Inl err"
    by (simp add: eq withCache_request_Rejected)
  have s1: "storage ?w1 = storage (if forceRefresh then clearCache fl key userId w else w)"
    by (simp add: eq withCache_request_Rejected loadFromCache_frame)
  have p1: "map_of (pendingRequests ?w1) (cacheKey key userId) = None"
    by (simp add: eq withCache_request_Rejected map_of_delete_same)
  have c1: "fetchCalls ?w1 = Suc (fetchCalls w)"
    by (simp add: eq withCache_request_Rejected loadFromCache_frame clearCache_frame)
  have "\<not> forceRefresh' \<longrightarrow> fst (loadFromCache fl t_load' key userId ?w1) = null"
  proof
    assume nf': "\<not> forceRefresh'"
    show "fst (loadFromCache fl t_load' key userId ?w1) = null"
    proof (cases forceRefresh)
      case True
      then have "\<not> removeItem_fails fl (cacheKey key userId)"
        using removed nf' by simp
      moreover have "storage ?w1 = storage (clearCache fl key userId w)"
        using s1 True by simp
      ultimately show ?thesis
        by (rule loadFromCache_cleared)
    next
      case False
      then have "fst (loadFromCache fl t_load key userId w) = null"
        using reach by simp
      moreover note later
      moreover have "storage ?w1 = storage w"
        using s1 False by simp
      ultimately show ?thesis
        by (rule loadFromCache_miss_later)
    qed
  qed
  then have reach': "forceRefresh' \<or> fst (loadFromCache fl t_load' key userId ?w1) = null"
    by blast
  note second = withCache_fetch_Resolved [OF reach' p1, of t_save' v exp']
  have any: "fst (withCache_request fl t_save key (Rejected err) userId exp w0) = Inl err
     \<and> map_of (pendingRequests (snd (withCache_request fl t_save key (Rejected err) userId exp w0)))
         (cacheKey key userId) = None
     \<and> storage (snd (withCache_request fl t_save key (Rejected err) userId exp w0)) = storage w0"
    by (simp add: withCache_request_Rejected map_of_delete_same)
  show ?thesis
    using r1 s1 p1 c1 second(1,2) any by simp
qed

text \<open>
  On \<open>busy_world\<close>, where a request is registered for the key: a forced refresh whose
  fetch fails with \<^verbatim>\<open>Room not found\<close> returns that error and leaves neither a registration
  nor an entry under the key, and a following call without \<^verbatim>\<open>forceRefresh\<close> fetches and
  returns \<^verbatim>\<open>[{id:"r2"}]\<close>.
\<close>

theorem failed_fetch_not_cached_unblocks_retry_witness:
  "fetchCalls (snd (withCache no_faults 1000 1500 ''rooms'' (Rejected (FetchError ''Room not found''))
            (Some ''user123'') (Some 900000) True busy_world)) \<noteq> fetchCalls busy_world
   \<and> (1000::int) \<le> 2000
   \<and> \<not> removeItem_fails no_faults (cacheKey ''rooms'' (Some ''user123''))
   \<and> map_of (pendingRequests busy_world) (cacheKey ''rooms'' (Some ''user123''))
       = Some \<lparr>ident = 0, outcome = Resolved null\<rparr>
   \<and> fst (withCache no_faults 1000 1500 ''rooms'' (Rejected (FetchError ''Room not found''))
            (Some ''user123'') (Some 900000) True busy_world)
       = Inl (FetchError ''Room not found'')
   \<and> map_of (pendingRequests
         (snd (withCache no_faults 1000 1500 ''rooms'' (Rejected (FetchError ''Room not found''))
            (Some ''user123'') (Some 900000) True busy_world)))
         (cacheKey ''rooms'' (Some ''user123'')) = None
   \<and> map_of (storage
         (snd (withCache no_faults 1000 1500 ''rooms'' (Rejected (FetchError ''Room not found''))
            (Some ''user123'') (Some 900000) True busy_world)))
         (cacheKey ''rooms'' (Some ''user123'')) = None
   \<and> fst (withCache no_faults 2000 2500 ''rooms'' (Resolved rooms_r2) (Some ''user123'')
            (Some 900000) False
            (snd (withCache no_faults 1000 1500 ''rooms'' (Rejected (FetchError ''Room not found''))
               (Some ''user123'') (Some 900000) True busy_world)))
       = Inr rooms_r2
   \<and> fetchCalls (snd (withCache no_faults 2000 2500 ''rooms'' (Resolved rooms_r2) (Some ''user123'')
            (Some 900000) False
            (snd (withCache no_faults 1000 1500 ''rooms'' (Rejected (FetchError ''Room not found''))
               (Some ''user123'') (Some 900000) True busy_world))))
       = Suc (Suc (fetchCalls busy_world))"
proof -
  have h1: "fetchCalls (snd (withCache no_faults 1000 1500 ''rooms''
              (Rejected (FetchError ''Room not found'')) (Some ''user123'') (Some 900000) True
              busy_world)) \<noteq> fetchCalls busy_world"
    by (simp add: busy_world_def run_defs)
  have h2: "(1000::int) \<le> 2000"
    by simp
  have h3: "True \<longrightarrow> False \<or> \<not> removeItem_fails no_faults (cacheKey ''rooms'' (Some ''user123''))"
    by (simp add: no_faults_def)
  have reg: "map_of (pendingRequests busy_world) (cacheKey ''rooms'' (Some ''user123''))
               = Some \<lparr>ident = 0, outcome = Resolved null\<rparr>"
    by (simp add: busy_world_def example_world_def cacheKey_def)
  have gone: "map_of (storage (clearCache no_faults ''rooms'' (Some ''user123'') busy_world))
                (cacheKey ''rooms'' (Some ''user123'')) = None"
    by (simp add: clearCache_storage no_faults_def map_of_delete_same)
  have h3': "\<not> removeItem_fails no_faults (cacheKey ''rooms'' (Some ''user123''))"
    by (simp add: no_faults_def)
  show ?thesis
    using h1 h2 h3' reg gone
      failed_fetch_not_cached_unblocks_retry [OF h1 h2 h3, of 2500 rooms_r2 "Some 900000"]
    by simp
qed

subsection \<open>C3: the sweep of a scope\<close>

text \<open>
  Claim C3 says that \<^verbatim>\<open>clearUserCache(userId)\<close> removes exactly the keys that end with
  \<^verbatim>\<open>_userId\<close> and leaves every other entry unchanged. The code filters the keys with
  \<^verbatim>\<open>key.includes(`_${userId}`)\<close>, a substring test, where the keys are composed with the
  user as their suffix. On a store with the rooms of the users \<^verbatim>\<open>user1\<close> and \<^verbatim>\<open>user12\<close>,
  clearing the cache of \<^verbatim>\<open>user1\<close> removes the entry of \<^verbatim>\<open>user12\<close> as well, whose key does
  not end with \<^verbatim>\<open>_user1\<close>.
\<close>

theorem clearUserCache_removes_other_users_entry:
  "\<not> suffix ''_user1'' ''eiga_user_rooms_user12''
   \<and> map_of (storage two_users_world) ''eiga_user_rooms_user12'' = Some (Parsed example_entry)
   \<and> map_of (storage (clearUserCache no_faults ''user1'' two_users_world))
        ''eiga_user_rooms_user12'' = None"
  by (simp add: two_users_world_def suffix_def clearUserCache_def clearUserCache_try_def
      store_defs no_faults_def prefix_def)

subsection \<open>C1: single-flight de-duplication\<close>

text \<open>
  Claim C1 says that concurrent calls of \<^verbatim>\<open>withCache\<close> for one key call the fetch function
  exactly once, because no call is suspended between its check of \<^verbatim>\<open>pendingRequests\<close> and
  its registration. In the code the check is \<^verbatim>\<open>if (await pendingRequests[cacheKey])\<close>: a
  call that finds no registration is suspended at this \<^verbatim>\<open>await\<close> before it registers
  its own fetch on line 107, and a second call that checks in the meantime finds no
  registration either. Two calls for the key \<^verbatim>\<open>rooms\<close> of \<^verbatim>\<open>user123\<close> on an empty store, run
  in \<open>lockstep\<close>, call the fetch function twice; both return the payload.
\<close>

theorem lockstep_calls_fetch_twice:
  "exec no_faults [rooms_call, rooms_call] lockstep
       (initial [rooms_call, rooms_call] empty_world) \<noteq> None
   \<and> fetchCalls (m_world (the (exec no_faults [rooms_call, rooms_call] lockstep
         (initial [rooms_call, rooms_call] empty_world)))) = 2
   \<and> m_pcs (the (exec no_faults [rooms_call, rooms_call] lockstep
         (initial [rooms_call, rooms_call] empty_world)))
       = [Done (Inr rooms_r1), Done (Inr rooms_r1)]"
  by (simp add: lockstep_def initial_def rooms_call_def start_fetch_def delete_pending_def run_defs)

end
